theory Spec2Isabelle
  imports Main "HOL-Library.Word"
begin

unbundle bit_operations_syntax

section \<open>Firmware of the jetting grid: data model\<close>

text \<open>
  The development follows \<^verbatim>\<open>src/src_mcu/src/main.cpp\<close>. The firmware is one
  cooperative control loop over global variables; the globals become one record
  that every function takes and returns. Calls of \<^verbatim>\<open>halt\<close> never return: a
  function that can reach one returns a sum, \<open>Inl\<close> carrying the fault.
\<close>

subsection \<open>Points and lines\<close>

text \<open>\<^verbatim>\<open>P_NULL_VAL\<close>, the coordinate value of an uninitialised point.\<close>

definition P_NULL_VAL :: int where
  "P_NULL_VAL = - 128"

record P =
  px :: int
  py :: int

definition P_null :: P where
  "P_null = \<lparr>px = P_NULL_VAL, py = P_NULL_VAL\<rparr>"

definition is_null :: "P \<Rightarrow> bool" where
  "is_null p \<longleftrightarrow> px p = P_NULL_VAL \<or> py p = P_NULL_VAL"

text \<open>
  Modelled from the spec: the class \<^verbatim>\<open>Line\<close> that \<^verbatim>\<open>main.cpp\<close> uses (a duration
  and an array of points) is declared in a header that is missing; the header
  under \<^verbatim>\<open>source_mcu\<close> declares the point class \<^verbatim>\<open>P\<close> above and an older line
  type without duration. After section 3 of the specification a line is a
  duration in milliseconds and a fixed array of points, ended by the first null
  point; default construction fills every slot with the null point. The stored
  form is the duration with one 16-bit mask per row of the grid.
\<close>

record Line =
  duration :: "16 word"
  points :: "P list"

record PackedTimeLine =
  ptl_time :: "16 word"
  packed :: "16 word list"

subsection \<open>Faults and host reports\<close>

datatype fault =
    Halt nat
  | OutOfRangeCoordinate
  | OutOfRangeIndex

datatype report =
    EchoName string
  | EchoCount "16 word"
  | ErrCapacity "16 word" nat
  | ErrCountMismatch "16 word" nat
  | Success
  | ErrTimeout
  | Identity
  | Position nat
  | ProgramInfo string nat
  | Readings nat
  | StateName string
  | Dump

subsection \<open>The protocol manager\<close>

text \<open>
  The position is \<open>None\<close> while the program is primed to start: no line has been
  activated yet.
\<close>

record ProtocolManager =
  pm_name :: string
  program :: "PackedTimeLine list"
  pm_pos :: "nat option"
  last_activated :: "32 word"
  prime_start_calls :: nat

subsection \<open>Constants, tables and presets declared in other files\<close>

text \<open>
  \<^verbatim>\<open>constants.h\<close>, \<^verbatim>\<open>translations.h\<close>, \<^verbatim>\<open>protocol_presets.h\<close> and the valve
  driver \<^verbatim>\<open>CentipedeManager\<close> are missing, so the constants, the valve table
  \<^verbatim>\<open>valve2p\<close>, the valve masks that the driver commits for a set of points, the
  presets and the integer parser of the command listener are parameters of the
  model. The axis bounds stand for both axes of the grid.
\<close>

record config =
  PROTOCOL_MAX_LINES :: nat
  MAX_POINTS_PER_LINE :: nat
  N_VALVES :: nat
  AXIS_MIN :: int
  AXIS_MAX :: int
  PERIOD_SAFETY_PULSES :: nat
  valve2p :: "nat \<Rightarrow> P"
  masks_of_points :: "P list \<Rightarrow> 16 word list"
  load_protocol_preset :: "nat \<Rightarrow> ProtocolManager \<Rightarrow> fault + ProtocolManager"
  parseIntInString :: "string \<Rightarrow> nat \<Rightarrow> int"

subsection \<open>The globals of the firmware\<close>

text \<open>
  The four states of the machine, what the binary listener reports on a pass
  (nothing, a buffer overrun, or the buffer with the length of the frame's
  data), what a pass of the loop receives (the clock, the text commands and the
  binary frame that arrived), and the global variables. Besides the variables
  of \<^verbatim>\<open>main.cpp\<close> the record holds the committed valve masks, the level of the
  pulse line, the static timers of the two time gates, the fields of the state
  machine object, the lines printed to the host and the text commands waiting
  in the listener.
\<close>

datatype fsm_state = state_off | state_paused | state_running | state_uploading

datatype bsc_result = NoFrame | Overrun | Frame "8 word list" nat

record tick_input =
  t_now :: "32 word"
  t_rx :: "string list"
  t_bsc :: bsc_result

record mcu =
  loading_program :: bool
  loading_stage :: nat
  loading_successful :: bool
  promised_N_lines :: "16 word"
  protocol_mgr :: ProtocolManager
  cp_masks :: "16 word list"
  override_pump_safety :: bool
  safety__allow_jetting_pump_to_run :: bool
  toggler :: bool
  PIN_SAFETY_PULSE_OUT :: bool
  pulse_timer :: "32 word option"
  cmd_timer :: "32 word option"
  fsm_current :: fsm_state
  fsm_next :: fsm_state
  fsm_need_enter :: bool
  fsm_change_time :: "32 word"
  serial_out :: "report list"
  bin_buf :: "8 word list"
  sc_pending :: "string list"

section \<open>The safety gate\<close>

text \<open>
  Modelled from the spec: \<^verbatim>\<open>CentipedeManager::all_masks_are_zero\<close> is declared in
  a header that is not among the sources. The aggregate actuation mask is the OR
  of all last-committed valve masks; the test is that it is zero.
\<close>

definition aggregate_mask :: "16 word list \<Rightarrow> 16 word" where
  "aggregate_mask ms = foldr (OR) ms 0"

definition all_masks_are_zero :: "16 word list \<Rightarrow> bool" where
  "all_masks_are_zero ms \<longleftrightarrow> aggregate_mask ms = 0"

text \<open>Lines 730 to 742 of \<^verbatim>\<open>loop\<close>: the derivation of the pump-enable flag.\<close>

definition safety_check :: "mcu \<Rightarrow> mcu" where
  "safety_check st =
     (if override_pump_safety st
      then st\<lparr>safety__allow_jetting_pump_to_run := True\<rparr>
      else if all_masks_are_zero (cp_masks st)
           then st\<lparr>safety__allow_jetting_pump_to_run := False\<rparr>
           else st\<lparr>safety__allow_jetting_pump_to_run := True\<rparr>)"

section \<open>The protocol manager\<close>

text \<open>
  Modelled from the spec: \<^verbatim>\<open>ProtocolManager.cpp\<close> and the header of the version
  that \<^verbatim>\<open>main.cpp\<close> calls are missing (the header under \<^verbatim>\<open>source_mcu\<close> is an older
  interface). The operations below follow sections 3, 4.1, 4.2 and 4.3 of the
  specification: \<open>unpack_byte\<close> reads the biased x from the high nibble and the
  biased y from the low nibble; \<open>pack_points\<close> walks a line up to the first null
  point, sets one bit per point (element index from y, bit position from x) and
  faults on a coordinate outside the axis range; \<open>add_line\<close> refuses a line when
  the program is full and otherwise packs and appends; \<open>clear\<close> empties program
  and name and forgets the position; \<open>prime_start\<close> makes the next update start
  at line 0. \<open>prime_start_calls\<close> is a ghost counter of the calls of
  \<open>prime_start\<close>.
\<close>

definition unpack_byte :: "config \<Rightarrow> 8 word \<Rightarrow> P" where
  "unpack_byte cfg c =
     \<lparr>px = int (unat (drop_bit 4 c)) + AXIS_MIN cfg,
      py = int (unat (c AND 15)) + AXIS_MIN cfg\<rparr>"

definition in_axis :: "config \<Rightarrow> P \<Rightarrow> bool" where
  "in_axis cfg p \<longleftrightarrow>
     AXIS_MIN cfg \<le> px p \<and> px p \<le> AXIS_MAX cfg \<and> AXIS_MIN cfg \<le> py p \<and> py p \<le> AXIS_MAX cfg"

definition NUMEL_AXIS :: "config \<Rightarrow> nat" where
  "NUMEL_AXIS cfg = nat (AXIS_MAX cfg - AXIS_MIN cfg + 1)"

definition set_bit_of :: "config \<Rightarrow> P \<Rightarrow> 16 word list \<Rightarrow> 16 word list" where
  "set_bit_of cfg p ms =
     (let row = nat (py p - AXIS_MIN cfg); col = nat (px p - AXIS_MIN cfg)
      in ms[row := (ms ! row) OR push_bit col 1])"

fun pack_points :: "config \<Rightarrow> P list \<Rightarrow> 16 word list \<Rightarrow> fault + 16 word list" where
  "pack_points cfg [] ms = Inr ms"
| "pack_points cfg (p # ps) ms =
     (if is_null p then Inr ms
      else if \<not> in_axis cfg p then Inl OutOfRangeCoordinate
      else pack_points cfg ps (set_bit_of cfg p ms))"

definition pack_line :: "config \<Rightarrow> Line \<Rightarrow> fault + PackedTimeLine" where
  "pack_line cfg l =
     (case pack_points cfg (points l) (replicate (NUMEL_AXIS cfg) 0) of
        Inl f \<Rightarrow> Inl f
      | Inr ms \<Rightarrow> Inr \<lparr>ptl_time = duration l, packed = ms\<rparr>)"

definition clear :: "ProtocolManager \<Rightarrow> ProtocolManager" where
  "clear pm = pm\<lparr>pm_name := [], program := [], pm_pos := None\<rparr>"

definition set_name :: "string \<Rightarrow> ProtocolManager \<Rightarrow> ProtocolManager" where
  "set_name s pm = pm\<lparr>pm_name := s\<rparr>"

definition get_name :: "ProtocolManager \<Rightarrow> string" where
  "get_name pm = pm_name pm"

definition get_N_lines :: "ProtocolManager \<Rightarrow> nat" where
  "get_N_lines pm = length (program pm)"

definition get_position :: "ProtocolManager \<Rightarrow> nat" where
  "get_position pm = (case pm_pos pm of None \<Rightarrow> 0 | Some i \<Rightarrow> i)"

definition add_line :: "config \<Rightarrow> Line \<Rightarrow> ProtocolManager \<Rightarrow> fault + (bool \<times> ProtocolManager)" where
  "add_line cfg l pm =
     (if get_N_lines pm = PROTOCOL_MAX_LINES cfg then Inr (False, pm)
      else case pack_line cfg l of
             Inl f \<Rightarrow> Inl f
           | Inr pl \<Rightarrow> Inr (True, pm\<lparr>program := program pm @ [pl]\<rparr>))"

definition prime_start :: "ProtocolManager \<Rightarrow> ProtocolManager" where
  "prime_start pm = pm\<lparr>pm_pos := None, prime_start_calls := Suc (prime_start_calls pm)\<rparr>"

section \<open>Library calls of the upload\<close>

text \<open>
  \<^verbatim>\<open>atoi\<close> of the C library: leading white space, an optional sign, then decimal
  digits up to the first other character. The target has 32-bit \<^verbatim>\<open>int\<close> and
  \<^verbatim>\<open>long\<close>; its C library computes \<^verbatim>\<open>atoi\<close> as \<^verbatim>\<open>strtol\<close> in base 10, which
  stops at the ends of that range, so the result is the value of the digits held
  between \<open>INT_MIN\<close> and \<open>INT_MAX\<close>.
\<close>

definition is_space :: "char \<Rightarrow> bool" where
  "is_space c \<longleftrightarrow> c \<in> set [CHR '' '', CHR 0x09, CHR 0x0A, CHR 0x0B, CHR 0x0C, CHR 0x0D]"

definition is_digit :: "char \<Rightarrow> bool" where
  "is_digit c \<longleftrightarrow> (48 :: nat) \<le> of_char c \<and> of_char c \<le> (57 :: nat)"

fun digits_value :: "int \<Rightarrow> string \<Rightarrow> int" where
  "digits_value acc [] = acc"
| "digits_value acc (c # cs) =
     (if is_digit c then digits_value (10 * acc + (of_char c - 48)) cs else acc)"

definition INT_MIN :: int where
  "INT_MIN = - 2147483648"

definition INT_MAX :: int where
  "INT_MAX = 2147483647"

definition atoi :: "string \<Rightarrow> int" where
  "atoi s =
     (case dropWhile is_space s of
        [] \<Rightarrow> 0
      | c # cs \<Rightarrow>
          if c = CHR ''-'' then max INT_MIN (- digits_value 0 cs)
          else if c = CHR ''+'' then min INT_MAX (digits_value 0 cs)
          else min INT_MAX (digits_value 0 (c # cs)))"

text \<open>
  Modelled from the spec: the stream listener \<^verbatim>\<open>DvG_StreamCommand\<close> and the
  \<^verbatim>\<open>FiniteStateMachine\<close> driver are libraries outside the sources. Text commands
  are handed over in arrival order: \<open>sc_pending\<close> holds the complete commands not
  yet taken, \<open>sc.available()\<close> is its non-emptiness and \<open>getCommand\<close> takes the
  first. A binary frame is what \<^verbatim>\<open>bsc.available()\<close> found on this tick: nothing,
  a buffer overrun, or the buffer contents with the length of the frame's data.
  \<open>transitionTo\<close> records the next state and restarts the time in state; the
  driver performs exit and entry on its next update.
\<close>

definition BIN_BUF_LEN :: nat where
  "BIN_BUF_LEN = 229"

definition LOADING_TIMEOUT :: nat where
  "LOADING_TIMEOUT = 4000"

definition transitionTo :: "32 word \<Rightarrow> fsm_state \<Rightarrow> mcu \<Rightarrow> mcu" where
  "transitionTo now s st = st\<lparr>fsm_next := s, fsm_change_time := now\<rparr>"

definition timeInCurrentState :: "32 word \<Rightarrow> mcu \<Rightarrow> nat" where
  "timeInCurrentState now st = unat (now - fsm_change_time st)"

definition println :: "report \<Rightarrow> mcu \<Rightarrow> mcu" where
  "println r st = st\<lparr>serial_out := serial_out st @ [r]\<rparr>"

section \<open>State Uploading\<close>

text \<open>
  A function body that can leave through \<^verbatim>\<open>return\<close> yields \<open>Returned\<close>; one that
  runs to its end yields \<open>Falls\<close>, and the caller continues with the next
  statement.
\<close>

datatype ctl = Returned mcu | Falls mcu

definition FSM_fun_uploading__ent :: "mcu \<Rightarrow> mcu" where
  "FSM_fun_uploading__ent st =
     st\<lparr>loading_program := True, loading_stage := 0, loading_successful := False,
        protocol_mgr := clear (protocol_mgr st)\<rparr>"

text \<open>Stage 0, lines 283 to 289: the name of the program.\<close>

definition upd_stage0 :: "mcu \<Rightarrow> mcu" where
  "upd_stage0 st =
     (if loading_stage st = 0 then
        (case sc_pending st of
           [] \<Rightarrow> st
         | c # cs \<Rightarrow>
             let pm = set_name c (protocol_mgr st)
             in println (EchoName (get_name pm))
                  (st\<lparr>sc_pending := cs, protocol_mgr := pm,
                      loading_stage := Suc (loading_stage st)\<rparr>))
      else st)"

text \<open>
  Stage 1, lines 292 to 311: the promised number of lines, stored in a 16-bit
  unsigned variable.
\<close>

definition upd_stage1 :: "config \<Rightarrow> 32 word \<Rightarrow> mcu \<Rightarrow> ctl" where
  "upd_stage1 cfg now st =
     (if loading_stage st = 1 then
        (case sc_pending st of
           [] \<Rightarrow> Falls st
         | c # cs \<Rightarrow>
             let n = (word_of_int (atoi c) :: 16 word);
                 st1 = st\<lparr>sc_pending := cs, promised_N_lines := n\<rparr>
             in if unat n > PROTOCOL_MAX_LINES cfg then
                  Returned (transitionTo now state_off
                    ((println (ErrCapacity n (PROTOCOL_MAX_LINES cfg)) st1)
                       \<lparr>loading_program := False\<rparr>))
                else Falls ((println (EchoCount n) st1)
                              \<lparr>loading_stage := Suc (loading_stage st1)\<rparr>))
      else Falls st)"

text \<open>
  The working line. Its array has one slot per grid position and one for the end
  sentinel. Lines 361, 364, 390 and 392 write through the unchecked
  \<^verbatim>\<open>operator[]\<close>: a write past the array is not caught and the function carries
  on. Such a write leaves the array itself as it was; what it lands on instead
  lies outside the state modelled here.
\<close>

definition new_Line :: "config \<Rightarrow> Line" where
  "new_Line cfg = \<lparr>duration = 0, points = replicate (MAX_POINTS_PER_LINE cfg + 1) P_null\<rparr>"

definition set_point :: "nat \<Rightarrow> P \<Rightarrow> Line \<Rightarrow> Line" where
  "set_point i p l = l\<lparr>points := (points l)[i := p]\<rparr>"

text \<open>Lines 359 to 363: one point per byte from index 2 up to the data length.\<close>

function unpack_points :: "config \<Rightarrow> 8 word list \<Rightarrow> nat \<Rightarrow> nat \<Rightarrow> nat \<Rightarrow> Line \<Rightarrow> nat \<times> Line" where
  "unpack_points cfg buf data_len idx idx_P l =
     (if idx < data_len then
        unpack_points cfg buf data_len (Suc idx) (Suc idx_P)
          (set_point idx_P (unpack_byte cfg (buf ! idx)) l)
      else (idx_P, l))"
  by pat_completeness auto
termination
  by (relation "measure (\<lambda>(cfg, buf, data_len, idx, idx_P, l). data_len - idx)") auto

text \<open>Lines 356 to 364: the line decoded from the buffer.\<close>

definition parse_line :: "config \<Rightarrow> 8 word list \<Rightarrow> nat \<Rightarrow> Line" where
  "parse_line cfg buf data_len =
     (let l = (new_Line cfg)
                \<lparr>duration := push_bit 8 (ucast (buf ! 0) :: 16 word) OR ucast (buf ! 1)\<rparr>;
          (idx_P, l') = unpack_points cfg buf data_len 2 0 l
      in set_point idx_P P_null l')"

text \<open>Stage 2, lines 314 to 369: binary frames up to the end-of-program frame.\<close>

definition upd_stage2 :: "config \<Rightarrow> 32 word \<Rightarrow> bsc_result \<Rightarrow> mcu \<Rightarrow> fault + ctl" where
  "upd_stage2 cfg now bsc st =
     (if loading_stage st = 2 then
        (case bsc of
           Overrun \<Rightarrow> Inl (Halt 8)
         | NoFrame \<Rightarrow> Inr (Falls st)
         | Frame buf data_len \<Rightarrow>
             let st1 = st\<lparr>bin_buf := buf\<rparr>
             in if data_len = 0 then
                  (if get_N_lines (protocol_mgr st1) \<noteq> unat (promised_N_lines st1) then
                     Inr (Returned (transitionTo now state_off
                       ((println (ErrCountMismatch (promised_N_lines st1)
                                    (get_N_lines (protocol_mgr st1))) st1)
                          \<lparr>loading_program := False\<rparr>)))
                   else
                     Inr (Returned (transitionTo now state_off
                       ((println Success st1)
                          \<lparr>loading_successful := True, loading_program := False\<rparr>))))
                else
                  (case add_line cfg (parse_line cfg buf data_len) (protocol_mgr st1) of
                     Inl f \<Rightarrow> Inl f
                   | Inr (ok, pm) \<Rightarrow> Inr (Falls (st1\<lparr>protocol_mgr := pm\<rparr>))))
      else Inr (Falls st))"

text \<open>Lines 371 to 377: the time-out check.\<close>

definition upd_timeout :: "32 word \<Rightarrow> mcu \<Rightarrow> mcu" where
  "upd_timeout now st =
     (if timeInCurrentState now st > LOADING_TIMEOUT then
        transitionTo now state_off ((println ErrTimeout st)\<lparr>loading_program := False\<rparr>)
      else st)"

definition FSM_fun_uploading__upd :: "config \<Rightarrow> 32 word \<Rightarrow> bsc_result \<Rightarrow> mcu \<Rightarrow> fault + mcu" where
  "FSM_fun_uploading__upd cfg now bsc st =
     (case upd_stage1 cfg now (upd_stage0 st) of
        Returned s \<Rightarrow> Inr s
      | Falls st1 \<Rightarrow>
          (case upd_stage2 cfg now bsc st1 of
             Inl f \<Rightarrow> Inl f
           | Inr (Returned s) \<Rightarrow> Inr s
           | Inr (Falls st2) \<Rightarrow> Inr (upd_timeout now st2)))"

text \<open>
  Lines 387 to 392: the line of the fail-safe program, one point per valve from
  the valve table, then the end sentinel. The loop counter is an 8-bit variable.
\<close>

function fill_valves :: "config \<Rightarrow> nat \<Rightarrow> Line \<Rightarrow> Line" where
  "fill_valves cfg idx_valve l =
     (if idx_valve \<le> N_VALVES cfg then
        fill_valves cfg (Suc idx_valve) (set_point (idx_valve - 1) (valve2p cfg idx_valve) l)
      else l)"
  by pat_completeness auto
termination
  by (relation "measure (\<lambda>(cfg, idx_valve, l). Suc (N_VALVES cfg) - idx_valve)") auto

definition all_valves_line :: "config \<Rightarrow> Line" where
  "all_valves_line cfg =
     set_point (N_VALVES cfg) P_null (fill_valves cfg 1 ((new_Line cfg)\<lparr>duration := 1000\<rparr>))"

definition FSM_fun_uploading__ext :: "config \<Rightarrow> mcu \<Rightarrow> fault + mcu" where
  "FSM_fun_uploading__ext cfg st =
     (if \<not> loading_successful st then
        (case add_line cfg (all_valves_line cfg)
                (set_name ''All valves open'' (clear (protocol_mgr st))) of
           Inl f \<Rightarrow> Inl f
         | Inr (ok, pm) \<Rightarrow> Inr (st\<lparr>protocol_mgr := prime_start pm\<rparr>))
      else Inr (st\<lparr>protocol_mgr := prime_start (protocol_mgr st)\<rparr>))"

section \<open>Playback\<close>

text \<open>
  Modelled from the spec: the playback operations of \<^verbatim>\<open>ProtocolManager\<close> are
  missing with the rest of the class. After section 4.1, \<open>unpack_line\<close> emits one
  point per set bit in increasing row-then-bit order and ends with the null
  point; after section 4.2, \<open>get_line\<close> is bounds-checked and faults on an index
  out of range; after section 4.3, activating a line records the position and
  the activation time and hands the line's points to the valve masks, \<open>update\<close>
  activates line 0 when the program is primed to start and otherwise advances,
  wrapping to line 0, once the line's duration has elapsed, and the seeks clamp
  into the program and activate at once.
\<close>

definition unpack_line :: "config \<Rightarrow> 16 word list \<Rightarrow> P list" where
  "unpack_line cfg ms =
     concat (map (\<lambda>i. map (\<lambda>b. \<lparr>px = int b + AXIS_MIN cfg, py = int i + AXIS_MIN cfg\<rparr>)
                          (filter (\<lambda>b. bit (ms ! i) b) [0..<16]))
                 [0..<length ms])
     @ [P_null]"

definition get_line :: "nat \<Rightarrow> ProtocolManager \<Rightarrow> fault + PackedTimeLine" where
  "get_line i pm = (if i < get_N_lines pm then Inr (program pm ! i) else Inl OutOfRangeIndex)"

definition activate :: "config \<Rightarrow> 32 word \<Rightarrow> nat \<Rightarrow> mcu \<Rightarrow> fault + mcu" where
  "activate cfg now i st =
     (case get_line i (protocol_mgr st) of
        Inl f \<Rightarrow> Inl f
      | Inr pl \<Rightarrow>
          Inr (st\<lparr>protocol_mgr := (protocol_mgr st)\<lparr>pm_pos := Some i, last_activated := now\<rparr>,
                  cp_masks := masks_of_points cfg (unpack_line cfg (packed pl))\<rparr>))"

definition update :: "config \<Rightarrow> 32 word \<Rightarrow> mcu \<Rightarrow> fault + mcu" where
  "update cfg now st =
     (case pm_pos (protocol_mgr st) of
        None \<Rightarrow> activate cfg now 0 st
      | Some i \<Rightarrow>
          (case get_line i (protocol_mgr st) of
             Inl f \<Rightarrow> Inl f
           | Inr pl \<Rightarrow>
               if unat (ptl_time pl) \<le> unat (now - last_activated (protocol_mgr st))
               then activate cfg now
                      (if Suc i < get_N_lines (protocol_mgr st) then Suc i else 0) st
               else Inr st))"

definition goto_line :: "config \<Rightarrow> 32 word \<Rightarrow> nat \<Rightarrow> mcu \<Rightarrow> fault + mcu" where
  "goto_line cfg now i st = activate cfg now (min i (get_N_lines (protocol_mgr st) - 1)) st"

definition goto_next_line :: "config \<Rightarrow> 32 word \<Rightarrow> mcu \<Rightarrow> fault + mcu" where
  "goto_next_line cfg now st = goto_line cfg now (Suc (get_position (protocol_mgr st))) st"

definition goto_prev_line :: "config \<Rightarrow> 32 word \<Rightarrow> mcu \<Rightarrow> fault + mcu" where
  "goto_prev_line cfg now st = goto_line cfg now (get_position (protocol_mgr st) - 1) st"

text \<open>Lines 122 to 125: the position as the host sees it, starting at 1.\<close>

definition get_protocol_position :: "mcu \<Rightarrow> nat" where
  "get_protocol_position st = get_position (protocol_mgr st) + 1"

section \<open>The finite state machine\<close>

text \<open>Lines 217 to 228: entering Off clears and sends the valve masks.\<close>

definition FSM_fun_off__ent :: "mcu \<Rightarrow> mcu" where
  "FSM_fun_off__ent st = st\<lparr>cp_masks := map (\<lambda>m. 0) (cp_masks st)\<rparr>"

text \<open>
  Modelled from the spec: the driver of the \<^verbatim>\<open>FiniteStateMachine\<close> library. Its
  first update enters the initial state; every later update first performs a
  pending transition (exit of the current state, then entry of the next) and
  then runs the update function of the current state.
\<close>

definition fsm_enter :: "fsm_state \<Rightarrow> mcu \<Rightarrow> mcu" where
  "fsm_enter s st =
     (case s of
        state_off \<Rightarrow> FSM_fun_off__ent st
      | state_paused \<Rightarrow> st
      | state_running \<Rightarrow> st
      | state_uploading \<Rightarrow> FSM_fun_uploading__ent st)"

definition fsm_exit :: "config \<Rightarrow> fsm_state \<Rightarrow> mcu \<Rightarrow> fault + mcu" where
  "fsm_exit cfg s st =
     (case s of
        state_uploading \<Rightarrow> FSM_fun_uploading__ext cfg st
      | _ \<Rightarrow> Inr st)"

definition fsm_upd :: "config \<Rightarrow> 32 word \<Rightarrow> bsc_result \<Rightarrow> fsm_state \<Rightarrow> mcu \<Rightarrow> fault + mcu" where
  "fsm_upd cfg now b s st =
     (case s of
        state_off \<Rightarrow> Inr st
      | state_paused \<Rightarrow> Inr st
      | state_running \<Rightarrow> update cfg now st
      | state_uploading \<Rightarrow> FSM_fun_uploading__upd cfg now b st)"

definition immediateTransitionTo :: "config \<Rightarrow> fsm_state \<Rightarrow> mcu \<Rightarrow> fault + mcu" where
  "immediateTransitionTo cfg s st =
     (case fsm_exit cfg (fsm_current st) st of
        Inl f \<Rightarrow> Inl f
      | Inr st1 \<Rightarrow> Inr (fsm_enter s (st1\<lparr>fsm_current := s, fsm_next := s\<rparr>)))"

definition fsm_update :: "config \<Rightarrow> 32 word \<Rightarrow> bsc_result \<Rightarrow> mcu \<Rightarrow> fault + mcu" where
  "fsm_update cfg now b st =
     (if fsm_need_enter st
      then Inr (fsm_enter (fsm_current st) (st\<lparr>fsm_need_enter := False\<rparr>))
      else
        (case (if fsm_current st \<noteq> fsm_next st
               then immediateTransitionTo cfg (fsm_next st) st else Inr st) of
           Inl f \<Rightarrow> Inl f
         | Inr st1 \<Rightarrow> fsm_upd cfg now b (fsm_current st1) st1))"

section \<open>The control loop\<close>

text \<open>
  Modelled from the spec: \<^verbatim>\<open>EVERY_N_MILLIS\<close> of the FastLED library, a time gate
  with a static timer. The timer starts at the first pass through the gate; the
  gate opens when at least the period has elapsed since it last opened, and
  restarts the timer then.
\<close>

definition every_n_millis :: "32 word \<Rightarrow> nat \<Rightarrow> 32 word option \<Rightarrow> bool \<times> 32 word option" where
  "every_n_millis now period t =
     (let prev = (case t of None \<Rightarrow> now | Some p \<Rightarrow> p)
      in if period \<le> unat (now - prev) then (True, Some now) else (False, Some prev))"

text \<open>Lines 512 to 649: the chain of comparisons on the received command.\<close>

definition dispatch :: "config \<Rightarrow> 32 word \<Rightarrow> string \<Rightarrow> mcu \<Rightarrow> fault + mcu" where
  "dispatch cfg now str_cmd st =
     (if str_cmd = ''id?'' then Inr (println Identity st)
      else if str_cmd = ''pos?'' then Inr (println (Position (get_protocol_position st)) st)
      else if str_cmd = ''p?'' then
        Inr (println (ProgramInfo (get_name (protocol_mgr st)) (get_N_lines (protocol_mgr st))) st)
      else if str_cmd = ''?'' then Inr (println (Readings (get_protocol_position st)) st)
      else if str_cmd = ''upload'' then Inr (transitionTo now state_uploading st)
      else if str_cmd = ''play'' then Inr (transitionTo now state_running st)
      else if str_cmd = ''stop'' then
        (let st1 = transitionTo now state_off st
         in Inr (println (Position (get_protocol_position st1)) st1))
      else if str_cmd = ''pause'' then
        (let st1 = transitionTo now state_paused st
         in Inr (println (Position (get_protocol_position st1)) st1))
      else if str_cmd = '','' then
        (case goto_prev_line cfg now st of
           Inl f \<Rightarrow> Inl f
         | Inr st1 \<Rightarrow> Inr (println (Position (get_protocol_position st1)) st1))
      else if str_cmd = ''.'' then
        (case goto_next_line cfg now st of
           Inl f \<Rightarrow> Inl f
         | Inr st1 \<Rightarrow> Inr (println (Position (get_protocol_position st1)) st1))
      else if take 4 str_cmd = ''goto'' then
        (let tmp_int = (word_of_int (max (parseIntInString cfg str_cmd 4) 1) :: 16 word)
         in case goto_line cfg now (unat (tmp_int - 1)) st of
              Inl f \<Rightarrow> Inl f
            | Inr st1 \<Rightarrow> Inr (println (Position (get_protocol_position st1)) st1))
      else if take 6 str_cmd = ''preset'' then
        (let idx_preset = (word_of_int (max (parseIntInString cfg str_cmd 6) 0) :: 16 word)
         in case load_protocol_preset cfg (unat idx_preset) (protocol_mgr st) of
              Inl f \<Rightarrow> Inl f
            | Inr pm \<Rightarrow> Inr (st\<lparr>protocol_mgr := pm\<rparr>))
      else if str_cmd = ''b?'' then Inr (println Dump st)
      else if str_cmd = ''proto?'' then Inr (println Dump st)
      else if str_cmd = ''fsm?'' then
        Inr (println (StateName (case fsm_current st of
                                   state_off \<Rightarrow> ''Off'' | state_paused \<Rightarrow> ''Paused''
                                 | state_running \<Rightarrow> ''Running''
                                 | state_uploading \<Rightarrow> ''Uploading'')) st)
      else if str_cmd = ''halt'' then Inl (Halt 0)
      else if str_cmd = ''override_safety'' then Inr (st\<lparr>override_pump_safety := True\<rparr>)
      else if str_cmd = ''restore_safety'' then Inr (st\<lparr>override_pump_safety := False\<rparr>)
      else Inr st)"

text \<open>Lines 504 to 652: the command listener, switched off while a program loads.\<close>

definition process_commands :: "config \<Rightarrow> 32 word \<Rightarrow> mcu \<Rightarrow> fault + mcu" where
  "process_commands cfg now st =
     (if \<not> loading_program st then
        (let (ready, t) = every_n_millis now 10 (cmd_timer st);
             st1 = st\<lparr>cmd_timer := t\<rparr>
         in if ready then
              (case sc_pending st1 of
                 [] \<Rightarrow> Inr st1
               | c # cs \<Rightarrow> dispatch cfg now c (st1\<lparr>sc_pending := cs\<rparr>))
            else Inr st1)
      else Inr st)"

text \<open>Lines 744 to 755: the safety pulses.\<close>

definition safety_pulses :: "config \<Rightarrow> 32 word \<Rightarrow> mcu \<Rightarrow> mcu" where
  "safety_pulses cfg now st =
     (if safety__allow_jetting_pump_to_run st then
        (let (ready, t) = every_n_millis now (PERIOD_SAFETY_PULSES cfg div 2) (pulse_timer st);
             st1 = st\<lparr>pulse_timer := t\<rparr>
         in if ready then
              st1\<lparr>toggler := \<not> toggler st1, PIN_SAFETY_PULSE_OUT := \<not> toggler st1\<rparr>
            else st1)
      else st)"

text \<open>
  One pass of \<^verbatim>\<open>loop\<close>: the commands that arrived are queued, then the command
  listener, the state machine, the safety check and the safety pulses run in
  this order. The watchdog, the sensor readings and the LED matrix do not touch
  the state modelled here.
\<close>

definition loop :: "config \<Rightarrow> tick_input \<Rightarrow> mcu \<Rightarrow> fault + mcu" where
  "loop cfg inp st =
     (case process_commands cfg (t_now inp) (st\<lparr>sc_pending := sc_pending st @ t_rx inp\<rparr>) of
        Inl f \<Rightarrow> Inl f
      | Inr st1 \<Rightarrow>
          (case fsm_update cfg (t_now inp) (t_bsc inp) st1 of
             Inl f \<Rightarrow> Inl f
           | Inr st2 \<Rightarrow> Inr (safety_pulses cfg (t_now inp) (safety_check st2))))"

fun run :: "config \<Rightarrow> tick_input list \<Rightarrow> mcu \<Rightarrow> fault + mcu" where
  "run cfg [] st = Inr st"
| "run cfg (inp # inps) st =
     (case loop cfg inp st of Inl f \<Rightarrow> Inl f | Inr st1 \<Rightarrow> run cfg inps st1)"

text \<open>
  The state that \<^verbatim>\<open>setup\<close> leaves: the pulse line written low, every flag at its
  initialiser, the state machine in Off with its entry pending, the valve masks
  of the eight ports zero, and the program of preset 0.
\<close>

definition new_ProtocolManager :: ProtocolManager where
  "new_ProtocolManager =
     \<lparr>pm_name = [], program = [], pm_pos = None, last_activated = 0, prime_start_calls = 0\<rparr>"

definition initial_globals :: "ProtocolManager \<Rightarrow> mcu" where
  "initial_globals pm =
     \<lparr>loading_program = False, loading_stage = 0, loading_successful = False,
      promised_N_lines = 0, protocol_mgr = pm, cp_masks = replicate 8 0,
      override_pump_safety = False, safety__allow_jetting_pump_to_run = False,
      toggler = False, PIN_SAFETY_PULSE_OUT = False,
      pulse_timer = None, cmd_timer = None,
      fsm_current = state_off, fsm_next = state_off, fsm_need_enter = True,
      fsm_change_time = 0, serial_out = [], bin_buf = replicate BIN_BUF_LEN 0,
      sc_pending = []\<rparr>"

definition mcu_setup :: "config \<Rightarrow> fault + mcu" where
  "mcu_setup cfg =
     (case load_protocol_preset cfg 0 new_ProtocolManager of
        Inl f \<Rightarrow> Inl f
      | Inr pm \<Rightarrow> Inr (initial_globals pm))"

section \<open>Well-formed constants and a small grid\<close>

text \<open>
  What the firmware relies on in its constants: the program holds at least one
  line, the valve loop counter fits its 8-bit variable, every valve has a slot
  in the working line, the axis fits the 16 bits of a mask and stays clear of
  the null value, and the valve table gives a grid point for every valve.
\<close>

definition config_ok :: "config \<Rightarrow> bool" where
  "config_ok cfg \<longleftrightarrow>
     1 \<le> PROTOCOL_MAX_LINES cfg \<and> N_VALVES cfg < 255 \<and>
     N_VALVES cfg \<le> MAX_POINTS_PER_LINE cfg \<and>
     P_NULL_VAL < AXIS_MIN cfg \<and> AXIS_MIN cfg \<le> AXIS_MAX cfg \<and>
     AXIS_MAX cfg - AXIS_MIN cfg < 16 \<and>
     (\<forall>v \<in> set [1..<Suc (N_VALVES cfg)]. in_axis cfg (valve2p cfg v))"

text \<open>
  A grid of three by three points with four valves, on which the theorems below
  are evaluated.
\<close>

definition grid3_valve2p :: "nat \<Rightarrow> P" where
  "grid3_valve2p v =
     (if v = 1 then \<lparr>px = - 1, py = 0\<rparr>
      else if v = 2 then \<lparr>px = 0, py = - 1\<rparr>
      else if v = 3 then \<lparr>px = 0, py = 1\<rparr>
      else if v = 4 then \<lparr>px = 1, py = 0\<rparr>
      else P_null)"

definition grid3_cfg :: config where
  "grid3_cfg =
     \<lparr>PROTOCOL_MAX_LINES = 5000, MAX_POINTS_PER_LINE = 9, N_VALVES = 4,
      AXIS_MIN = - 1, AXIS_MAX = 1, PERIOD_SAFETY_PULSES = 20,
      valve2p = grid3_valve2p,
      masks_of_points = (\<lambda>ps. (if list_all is_null ps then 0 else 1) # replicate 7 0),
      load_protocol_preset = (\<lambda>n pm. Inr pm),
      parseIntInString = (\<lambda>s n. atoi (drop n s))\<rparr>"

text \<open>
  The globals of an upload in progress on the small grid: the state machine is
  in Uploading since time 0, in the given stage, with the given promise and the
  given text commands waiting.
\<close>

definition grid3_uploading :: "nat \<Rightarrow> 16 word \<Rightarrow> string list \<Rightarrow> mcu" where
  "grid3_uploading stage n cmds =
     (FSM_fun_uploading__ent (initial_globals new_ProtocolManager))
       \<lparr>loading_stage := stage, promised_N_lines := n, sc_pending := cmds,
        fsm_current := state_uploading, fsm_next := state_uploading,
        fsm_need_enter := False\<rparr>"

text \<open>Frames for the small grid: two header bytes, then one byte per point.\<close>

definition frame_500_origin :: "8 word list" where
  "frame_500_origin = [0x01, 0xF4, 0x11] @ replicate 226 0"


text \<open>The packed line of the fail-safe program: the bit of every valve is set.\<close>

definition all_valves_packed :: "config \<Rightarrow> 16 word list" where
  "all_valves_packed cfg =
     foldl (\<lambda>m p. set_bit_of cfg p m) (replicate (NUMEL_AXIS cfg) 0)
       (map (valve2p cfg) [1..<Suc (N_VALVES cfg)])"

text \<open>
  Normal operation with nothing waiting: no upload in progress, the state
  machine settled in a state other than Uploading, no command pending. A pass
  brings the command \<^verbatim>\<open>upload\<close> when it is the only text received and the time
  gate of the command listener opens on it.
\<close>

definition idle :: "mcu \<Rightarrow> bool" where
  "idle st \<longleftrightarrow>
     \<not> loading_program st \<and> \<not> fsm_need_enter st \<and> fsm_current st \<noteq> state_uploading \<and>
     fsm_next st = fsm_current st \<and> sc_pending st = []"

definition upload_command :: "tick_input \<Rightarrow> mcu \<Rightarrow> bool" where
  "upload_command inp st \<longleftrightarrow>
     t_rx inp = [''upload''] \<and> fst (every_n_millis (t_now inp) 10 (cmd_timer st))"

text \<open>
  An upload in progress: the state machine is settled in Uploading, the loading
  flag is set and the upload has not succeeded.
\<close>

definition uploading :: "mcu \<Rightarrow> bool" where
  "uploading st \<longleftrightarrow>
     fsm_current st = state_uploading \<and> fsm_next st = state_uploading \<and>
     \<not> fsm_need_enter st \<and> loading_program st \<and> \<not> loading_successful st"

text \<open>
  A valid frame is a non-empty frame whose points fit the working line and lie
  on the grid. The passes of an orderly upload, counted from the entry time
  \<open>t0\<close> and with \<open>k\<close> text lines received so far: every pass lies within the
  deadline, the binary listener never overruns, and a frame arrives only on a
  pass by which both text lines (the name and the line count) have arrived, and
  is valid.
\<close>

definition valid_frame :: "config \<Rightarrow> 8 word list \<Rightarrow> nat \<Rightarrow> bool" where
  "valid_frame cfg buf data_len \<longleftrightarrow>
     0 < data_len \<and> data_len \<le> MAX_POINTS_PER_LINE cfg + 2 \<and>
     (\<forall>i \<in> set [2..<data_len]. in_axis cfg (unpack_byte cfg (buf ! i)))"

definition frame_in_order :: "config \<Rightarrow> nat \<Rightarrow> bsc_result \<Rightarrow> bool" where
  "frame_in_order cfg k b =
     (case b of
        NoFrame \<Rightarrow> True
      | Overrun \<Rightarrow> False
      | Frame buf data_len \<Rightarrow> 2 \<le> k \<and> valid_frame cfg buf data_len)"

fun orderly :: "config \<Rightarrow> 32 word \<Rightarrow> nat \<Rightarrow> tick_input list \<Rightarrow> bool" where
  "orderly cfg t0 k [] = True"
| "orderly cfg t0 k (inp # inps) =
     (unat (t_now inp - t0) \<le> LOADING_TIMEOUT \<and>
      frame_in_order cfg (k + length (t_rx inp)) (t_bsc inp) \<and>
      orderly cfg t0 (k + length (t_rx inp)) inps)"

definition frames_in :: "tick_input list \<Rightarrow> nat" where
  "frames_in passes = length (filter (\<lambda>inp. t_bsc inp \<noteq> NoFrame) passes)"

text \<open>
  The program store after a failed upload: the fail-safe program, primed to
  start.
\<close>

definition fail_safe :: "config \<Rightarrow> ProtocolManager \<Rightarrow> ProtocolManager" where
  "fail_safe cfg pm =
     prime_start
       ((set_name ''All valves open'' (clear pm))
          \<lparr>program := [\<lparr>ptl_time = 1000, packed = all_valves_packed cfg\<rparr>]\<rparr>)"

text \<open>
  What can end an upload before the time-out check of an update: the line
  count taken on this update exceeds the capacity, or the frame taken in stage 2
  is the end-of-program frame.
\<close>

definition over_capacity :: "config \<Rightarrow> string \<Rightarrow> bool" where
  "over_capacity cfg c \<longleftrightarrow> PROTOCOL_MAX_LINES cfg < nat (atoi c mod 65536)"

definition takes_count_over_capacity :: "config \<Rightarrow> mcu \<Rightarrow> bool" where
  "takes_count_over_capacity cfg st \<longleftrightarrow>
     (if loading_stage st = 1 then
        (case sc_pending st of c # cs \<Rightarrow> over_capacity cfg c | [] \<Rightarrow> False)
      else if loading_stage st = 0 then
        (case sc_pending st of c0 # c # cs \<Rightarrow> over_capacity cfg c | _ \<Rightarrow> False)
      else False)"

definition is_EOP :: "bsc_result \<Rightarrow> bool" where
  "is_EOP b = (case b of Frame buf data_len \<Rightarrow> data_len = 0 | _ \<Rightarrow> False)"

text \<open>
  The upload on the small grid after its first update at 3999 ms, which took
  the name, the promise of one line and the first frame.
\<close>

definition grid3_one_line :: mcu where
  "grid3_one_line =
     (grid3_uploading 2 1 [])
       \<lparr>protocol_mgr := (protocol_mgr (grid3_uploading 2 1 []))
          \<lparr>pm_name := ''T'', program := [\<lparr>ptl_time = 500, packed = [0, 2, 0]\<rparr>]\<rparr>,
        serial_out := [EchoName ''T'', EchoCount 1],
        bin_buf := frame_500_origin\<rparr>"

text \<open>
  Two states agree on what the safety gate owns: the override flag, the toggler
  and the level of the pulse line.
\<close>

definition same_safety_io :: "mcu \<Rightarrow> mcu \<Rightarrow> bool" where
  "same_safety_io st st' \<longleftrightarrow>
     override_pump_safety st' = override_pump_safety st \<and> toggler st' = toggler st \<and>
     PIN_SAFETY_PULSE_OUT st' = PIN_SAFETY_PULSE_OUT st"

text \<open>The loading flag is set at the start of every pass of a run.\<close>

fun loading_throughout :: "config \<Rightarrow> tick_input list \<Rightarrow> mcu \<Rightarrow> bool" where
  "loading_throughout cfg [] st = True"
| "loading_throughout cfg (inp # inps) st =
     (loading_program st \<and>
      (case loop cfg inp st of Inl f \<Rightarrow> True | Inr st1 \<Rightarrow> loading_throughout cfg inps st1))"

text \<open>
  Passes on the small grid from power-on: the first pass, the command
  \<^verbatim>\<open>override_safety\<close>, a pass that toggles the pulse line, and the command
  \<^verbatim>\<open>restore_safety\<close> with every valve closed.
\<close>

definition override_ticks :: "tick_input list" where
  "override_ticks =
     [\<lparr>t_now = 0, t_rx = [], t_bsc = NoFrame\<rparr>,
      \<lparr>t_now = 10, t_rx = [''override_safety''], t_bsc = NoFrame\<rparr>,
      \<lparr>t_now = 20, t_rx = [], t_bsc = NoFrame\<rparr>]"

definition restore_tick :: tick_input where
  "restore_tick = \<lparr>t_now = 30, t_rx = [''restore_safety''], t_bsc = NoFrame\<rparr>"

text \<open>The small grid after these passes, and after the restoring pass.\<close>

definition grid3_overridden :: mcu where
  "grid3_overridden =
     (initial_globals new_ProtocolManager)
       \<lparr>override_pump_safety := True, safety__allow_jetting_pump_to_run := True,
        toggler := True, PIN_SAFETY_PULSE_OUT := True,
        pulse_timer := Some 20, cmd_timer := Some 20, fsm_need_enter := False\<rparr>"

definition grid3_restored :: mcu where
  "grid3_restored =
     grid3_overridden
       \<lparr>override_pump_safety := False, safety__allow_jetting_pump_to_run := False,
        cmd_timer := Some 30\<rparr>"

text \<open>A pass during an upload on the small grid in which a safety command arrives.\<close>

definition override_during_upload :: tick_input where
  "override_during_upload = \<lparr>t_now = 100, t_rx = [''override_safety''], t_bsc = NoFrame\<rparr>"

definition grid3_named_override :: mcu where
  "grid3_named_override =
     (grid3_uploading 1 0 [])
       \<lparr>protocol_mgr := (protocol_mgr (grid3_uploading 1 0 []))\<lparr>pm_name := ''override_safety''\<rparr>,
        serial_out := [EchoName ''override_safety'']\<rparr>"

text \<open>
  A frame for the small grid whose point byte decodes off the grid, and the
  upload on the small grid in stage 2 with the program full.
\<close>

definition frame_off_grid :: "8 word list" where
  "frame_off_grid = [0x01, 0xF4, 0xFF] @ replicate 226 0"

definition grid3_full :: mcu where
  "grid3_full =
     (grid3_uploading 2 5000 [])
       \<lparr>protocol_mgr := (protocol_mgr (grid3_uploading 2 5000 []))
          \<lparr>program := replicate 5000 \<lparr>ptl_time = 500, packed = [0, 2, 0]\<rparr>\<rparr>\<rparr>"

text \<open>
  Passes on the small grid from power-on: the first pass, the command
  \<^verbatim>\<open>upload\<close>, the name of the program, a promise of 5001 lines, which ends the
  upload with the capacity error, and on the pass after that report the command
  \<^verbatim>\<open>upload\<close> again.
\<close>

definition reupload_ticks :: "tick_input list" where
  "reupload_ticks =
     [\<lparr>t_now = 0, t_rx = [], t_bsc = NoFrame\<rparr>,
      \<lparr>t_now = 10, t_rx = [''upload''], t_bsc = NoFrame\<rparr>,
      \<lparr>t_now = 20, t_rx = [''T''], t_bsc = NoFrame\<rparr>,
      \<lparr>t_now = 30, t_rx = [''5001''], t_bsc = NoFrame\<rparr>,
      \<lparr>t_now = 40, t_rx = [''upload''], t_bsc = NoFrame\<rparr>]"

text \<open>
  The small grid after the first pass, after the upload has taken the name, and
  after the five passes above.
\<close>

definition grid3_idle :: mcu where
  "grid3_idle = (initial_globals new_ProtocolManager)\<lparr>cmd_timer := Some 0, fsm_need_enter := False\<rparr>"

definition grid3_named :: mcu where
  "grid3_named =
     grid3_idle
       \<lparr>loading_program := True, loading_stage := 1,
        protocol_mgr := new_ProtocolManager\<lparr>pm_name := ''T''\<rparr>,
        cmd_timer := Some 10, fsm_current := state_uploading, fsm_next := state_uploading,
        fsm_change_time := 10, serial_out := [EchoName ''T'']\<rparr>"

definition grid3_stuck :: mcu where
  "grid3_stuck =
     grid3_named
       \<lparr>loading_program := False, promised_N_lines := 5001, cmd_timer := Some 40,
        fsm_change_time := 40, serial_out := [EchoName ''T'', ErrCapacity 5001 5000]\<rparr>"

text \<open>
  Passes of an upload on the small grid: the command \<^verbatim>\<open>upload\<close> at 10 ms, the
  name and the line count on the next two passes, a pass that brings a frame
  with one point, a pass that brings the end-of-program frame, and a pass that
  brings nothing. In the late upload from power-on the frame arrives 4001 ms
  after the command.
\<close>

definition upload_tick :: tick_input where
  "upload_tick = \<lparr>t_now = 10, t_rx = [''upload''], t_bsc = NoFrame\<rparr>"

definition name_count_ticks :: "string \<Rightarrow> tick_input list" where
  "name_count_ticks c =
     [\<lparr>t_now = 20, t_rx = [''T''], t_bsc = NoFrame\<rparr>,
      \<lparr>t_now = 30, t_rx = [c], t_bsc = NoFrame\<rparr>]"

definition frame_tick :: "32 word \<Rightarrow> tick_input" where
  "frame_tick t = \<lparr>t_now = t, t_rx = [], t_bsc = Frame frame_500_origin 3\<rparr>"

definition eop_tick :: "32 word \<Rightarrow> tick_input" where
  "eop_tick t = \<lparr>t_now = t, t_rx = [], t_bsc = Frame frame_500_origin 0\<rparr>"

definition quiet_tick :: "32 word \<Rightarrow> tick_input" where
  "quiet_tick t = \<lparr>t_now = t, t_rx = [], t_bsc = NoFrame\<rparr>"

definition late_ticks :: "string \<Rightarrow> tick_input list" where
  "late_ticks c =
     quiet_tick 0 # upload_tick # name_count_ticks c @ [frame_tick 4011, eop_tick 4020]"

section \<open>Properties\<close>

lemma aggregate_mask_zero_iff: "aggregate_mask ms = 0 \<longleftrightarrow> (\<forall>m \<in> set ms. m = 0)"
  by (induction ms) (auto simp: aggregate_mask_def or_eq_0_iff)

declare unpack_points.simps [simp del]

declare fill_valves.simps [simp del]

subsection \<open>Bytes of a frame\<close>

lemma unat_big_endian:
  "unat (push_bit 8 (ucast (a :: 8 word) :: 16 word) OR ucast b) = 256 * unat a + unat (b :: 8 word)"
proof -
  have disj: "push_bit 8 (ucast a :: 16 word) AND ucast b = 0"
    by (rule bit_eqI) (auto simp: bit_simps dest: bit_imp_le_length)
  have a: "unat a < 256" using unsigned_less[of a] by simp
  have b: "unat b < 256" using unsigned_less[of b] by simp
  have ua: "unat (ucast a :: 16 word) = unat a"
    using a by (simp add: unsigned_ucast_eq take_bit_nat_eq_self)
  have ub: "unat (ucast b :: 16 word) = unat b"
    using b by (simp add: unsigned_ucast_eq take_bit_nat_eq_self)
  have "push_bit 8 (ucast a :: 16 word) OR ucast b = ucast a * 256 + ucast b"
    using disjunctive_add_eq_or[OF disj] by (simp add: push_bit_eq_mult)
  moreover have "unat ((ucast a :: 16 word) * 256 + ucast b) = 256 * unat a + unat b"
    using a b by (simp add: unat_word_ariths ua ub)
  ultimately show ?thesis by simp
qed

lemma unat_high_nibble: "unat (drop_bit 4 (c :: 8 word)) = unat c div 16"
  by (simp add: unat_div drop_bit_eq_div)

lemma unat_low_nibble: "unat ((c :: 8 word) AND 15) = unat c mod 16"
proof -
  have "(15 :: 8 word) = mask 4" by (simp add: mask_eq_exp_minus_1)
  then have "c AND 15 = take_bit 4 c" by (simp add: take_bit_eq_mask)
  then show ?thesis by (simp add: take_bit_eq_mod unat_mod)
qed

lemma unpack_byte_nibbles:
  "px (unpack_byte cfg c) = int (unat c div 16) + AXIS_MIN cfg \<and>
   py (unpack_byte cfg c) = int (unat c mod 16) + AXIS_MIN cfg"
  by (simp add: unpack_byte_def unat_high_nibble unat_low_nibble)

subsection \<open>The decoding loop\<close>

lemma unpack_points_closed:
  "idx \<le> data_len \<Longrightarrow> idx_P + (data_len - idx) \<le> length (points l) \<Longrightarrow>
   unpack_points cfg buf data_len idx idx_P l =
     (idx_P + (data_len - idx),
      l\<lparr>points := take idx_P (points l) @ map (\<lambda>i. unpack_byte cfg (buf ! i)) [idx..<data_len]
                     @ drop (idx_P + (data_len - idx)) (points l)\<rparr>)"
proof (induction cfg buf data_len idx idx_P l rule: unpack_points.induct)
  case (1 cfg buf data_len idx idx_P l)
  show ?case
  proof (cases "idx < data_len")
    case False
    with "1.prems" show ?thesis by (subst unpack_points.simps) simp
  next
    case True
    let ?l' = "l\<lparr>points := (points l)[idx_P := unpack_byte cfg (buf ! idx)]\<rparr>"
    have sp: "set_point idx_P (unpack_byte cfg (buf ! idx)) l = ?l'"
      by (simp add: set_point_def)
    have ih: "unpack_points cfg buf data_len (Suc idx) (Suc idx_P) ?l' =
       (Suc idx_P + (data_len - Suc idx),
          ?l'\<lparr>points := take (Suc idx_P) (points ?l') @ map (\<lambda>i. unpack_byte cfg (buf ! i)) [Suc idx..<data_len]
                         @ drop (Suc idx_P + (data_len - Suc idx)) (points ?l')\<rparr>)"
      using "1.IH"[OF True] True "1.prems" unfolding sp by simp
    have e: "Suc idx_P + (data_len - Suc idx) = idx_P + (data_len - idx)"
      using True by arith
    have t: "take (Suc idx_P) (points ?l') = take idx_P (points l) @ [unpack_byte cfg (buf ! idx)]"
      using True "1.prems" by (simp add: take_Suc_conv_app_nth)
    have d: "drop (idx_P + (data_len - idx)) (points ?l') = drop (idx_P + (data_len - idx)) (points l)"
      using True by simp
    have u: "[idx..<data_len] = idx # [Suc idx..<data_len]"
      using True by (simp add: upt_conv_Cons)
    have "unpack_points cfg buf data_len idx idx_P l = unpack_points cfg buf data_len (Suc idx) (Suc idx_P) ?l'"
      using True sp by (subst unpack_points.simps) simp
    also have "\<dots> = (idx_P + (data_len - idx),
          ?l'\<lparr>points := take (Suc idx_P) (points ?l') @ map (\<lambda>i. unpack_byte cfg (buf ! i)) [Suc idx..<data_len]
                         @ drop (idx_P + (data_len - idx)) (points ?l')\<rparr>)"
      unfolding ih e ..
    finally show ?thesis
      unfolding t d u by simp
  qed
qed

lemma unpack_points_duration:
  "duration (snd (unpack_points cfg buf data_len idx idx_P l)) = duration l"
proof (induction cfg buf data_len idx idx_P l rule: unpack_points.induct)
  case (1 cfg buf data_len idx idx_P l)
  show ?case
  proof (cases "idx < data_len")
    case True
    then show ?thesis
      using "1.IH"[OF True] by (subst unpack_points.simps) (simp add: set_point_def)
  next
    case False
    then show ?thesis by (subst unpack_points.simps) simp
  qed
qed

lemma parse_line_duration:
  "duration (parse_line cfg buf data_len) = push_bit 8 (ucast (buf ! 0) :: 16 word) OR ucast (buf ! 1)"
  using unpack_points_duration[of cfg buf data_len 2 0
      "(new_Line cfg)\<lparr>duration := push_bit 8 (ucast (buf ! 0) :: 16 word) OR ucast (buf ! 1)\<rparr>"]
  by (simp add: parse_line_def Let_def set_point_def case_prod_beta)

lemma parse_line_closed:
  assumes "data_len \<le> MAX_POINTS_PER_LINE cfg + 2"
  shows "parse_line cfg buf data_len =
     \<lparr>duration = push_bit 8 (ucast (buf ! 0) :: 16 word) OR ucast (buf ! 1),
      points = map (\<lambda>i. unpack_byte cfg (buf ! i)) [2..<data_len]
               @ replicate (MAX_POINTS_PER_LINE cfg + 1 - (data_len - 2)) P_null\<rparr>"
proof -
  let ?d = "push_bit 8 (ucast (buf ! 0) :: 16 word) OR ucast (buf ! 1)"
  let ?M = "MAX_POINTS_PER_LINE cfg + 1"
  let ?l = "\<lparr>duration = ?d, points = replicate ?M P_null\<rparr>"
  let ?n = "data_len - 2"
  let ?pts = "map (\<lambda>i. unpack_byte cfg (buf ! i)) [2..<data_len]"
  let ?r = "\<lparr>duration = ?d, points = ?pts @ replicate (?M - ?n) P_null\<rparr>"
  have l: "(new_Line cfg)\<lparr>duration := ?d\<rparr> = ?l" by (simp add: new_Line_def)
  have up: "unpack_points cfg buf data_len 2 0 ?l = (?n, ?r)"
  proof (cases "2 \<le> data_len")
    case True
    have "0 + (data_len - 2) \<le> length (points ?l)" using assms by simp
    from unpack_points_closed[OF True this, of cfg buf]
    show ?thesis by (simp del: replicate.simps)
  next
    case False
    then show ?thesis
      by (subst unpack_points.simps) (simp del: replicate.simps)
  qed
  have sp: "set_point ?n P_null ?r = ?r"
  proof -
    have "(?pts @ replicate (?M - ?n) P_null)[?n := P_null]
          = ?pts @ (replicate (?M - ?n) P_null)[0 := P_null]"
      by (simp add: list_update_append del: replicate.simps)
    also have "(replicate (?M - ?n) P_null)[0 := P_null] = replicate (?M - ?n) P_null"
      by (rule nth_equalityI) (auto simp: nth_list_update simp del: replicate.simps)
    finally show ?thesis by (simp add: set_point_def del: replicate.simps)
  qed
  show ?thesis
    unfolding parse_line_def Let_def l up using sp by (simp del: replicate.simps)
qed

subsection \<open>Packing and appending a line\<close>

lemma pack_points_foldl:
  "\<forall>p \<in> set ps. \<not> is_null p \<and> in_axis cfg p \<Longrightarrow> rest = [] \<or> is_null (hd rest) \<Longrightarrow>
   pack_points cfg (ps @ rest) ms = Inr (foldl (\<lambda>m p. set_bit_of cfg p m) ms ps)"
proof (induction ps arbitrary: ms)
  case Nil
  then show ?case by (cases rest) auto
next
  case (Cons p ps)
  then show ?case by simp
qed

lemma in_axis_not_null: "P_NULL_VAL < AXIS_MIN cfg \<Longrightarrow> in_axis cfg p \<Longrightarrow> \<not> is_null p"
  by (auto simp: in_axis_def is_null_def)

lemma add_line_appends:
  assumes "get_N_lines pm \<noteq> PROTOCOL_MAX_LINES cfg"
    and "\<forall>p \<in> set ps. in_axis cfg p" and "P_NULL_VAL < AXIS_MIN cfg" and "0 < k"
  shows "add_line cfg \<lparr>duration = d, points = ps @ replicate k P_null\<rparr> pm =
     Inr (True, pm\<lparr>program := program pm @
        [\<lparr>ptl_time = d,
          packed = foldl (\<lambda>m p. set_bit_of cfg p m) (replicate (NUMEL_AXIS cfg) 0) ps\<rparr>]\<rparr>)"
proof -
  have "\<forall>p \<in> set ps. \<not> is_null p \<and> in_axis cfg p"
    using assms(2,3) in_axis_not_null by blast
  moreover have "replicate k P_null = [] \<or> is_null (hd (replicate k P_null))"
    using assms(4) by (cases k) (auto simp: is_null_def P_null_def)
  ultimately have "pack_points cfg (ps @ replicate k P_null) (replicate (NUMEL_AXIS cfg) 0) =
      Inr (foldl (\<lambda>m p. set_bit_of cfg p m) (replicate (NUMEL_AXIS cfg) 0) ps)"
    by (rule pack_points_foldl)
  then show ?thesis using assms(1) by (simp add: add_line_def pack_line_def)
qed

lemma add_line_full:
  "get_N_lines pm = PROTOCOL_MAX_LINES cfg \<Longrightarrow> add_line cfg l pm = Inr (False, pm)"
  by (simp add: add_line_def)

lemma upd_stage2_frame:
  assumes "loading_stage st = 2" "0 < data_len"
  shows "FSM_fun_uploading__upd cfg now (Frame buf data_len) st =
    (case add_line cfg (parse_line cfg buf data_len) (protocol_mgr st) of
       Inl f \<Rightarrow> Inl f
     | Inr (ok, pm) \<Rightarrow> Inr (upd_timeout now (st\<lparr>bin_buf := buf, protocol_mgr := pm\<rparr>)))"
  using assms
  by (simp add: FSM_fun_uploading__upd_def upd_stage0_def upd_stage1_def upd_stage2_def
      split: sum.splits prod.splits)

lemma pack_points_off_grid:
  "\<forall>p \<in> set ps. \<not> is_null p \<Longrightarrow> \<exists>p \<in> set ps. \<not> in_axis cfg p \<Longrightarrow>
   pack_points cfg (ps @ rest) ms = Inl OutOfRangeCoordinate"
  by (induction ps arbitrary: ms) auto

lemma unpack_byte_not_null: "P_NULL_VAL < AXIS_MIN cfg \<Longrightarrow> \<not> is_null (unpack_byte cfg c)"
proof -
  have "0 \<le> int (unat (drop_bit 4 c))" "0 \<le> int (unat (c AND 15))" by simp_all
  then have "P_NULL_VAL < int (unat (drop_bit 4 c)) + AXIS_MIN cfg"
      "P_NULL_VAL < int (unat (c AND 15)) + AXIS_MIN cfg"
    if "P_NULL_VAL < AXIS_MIN cfg" using that by arith+
  then show "P_NULL_VAL < AXIS_MIN cfg \<Longrightarrow> \<not> is_null (unpack_byte cfg c)"
    unfolding unpack_byte_def is_null_def by (simp del: of_nat_unat) 
qed

lemma upd_full_store:
  assumes "loading_stage st = 2" "0 < data_len"
    and "get_N_lines (protocol_mgr st) = PROTOCOL_MAX_LINES cfg"
  shows "FSM_fun_uploading__upd cfg now (Frame buf data_len) st =
     Inr (upd_timeout now (st\<lparr>bin_buf := buf\<rparr>))"
  using assms(3) by (simp add: upd_stage2_frame[OF assms(1,2)] add_line_full)

lemma upd_off_grid_halts:
  assumes "loading_stage st = 2" "0 < data_len"
    and "data_len \<le> MAX_POINTS_PER_LINE cfg + 2"
    and "get_N_lines (protocol_mgr st) \<noteq> PROTOCOL_MAX_LINES cfg"
    and "P_NULL_VAL < AXIS_MIN cfg"
    and "\<exists>i \<in> set [2..<data_len]. \<not> in_axis cfg (unpack_byte cfg (buf ! i))"
  shows "FSM_fun_uploading__upd cfg now (Frame buf data_len) st = Inl OutOfRangeCoordinate"
proof -
  let ?pts = "map (\<lambda>i. unpack_byte cfg (buf ! i)) [2..<data_len]"
  have nn: "\<forall>p \<in> set ?pts. \<not> is_null p"
    using unpack_byte_not_null[OF assms(5)] by auto
  have off: "\<exists>p \<in> set ?pts. \<not> in_axis cfg p"
    using assms(6) by auto
  have "pack_points cfg (?pts @ rest) ms = Inl OutOfRangeCoordinate" for rest ms
    using nn off by (rule pack_points_off_grid)
  then have "add_line cfg (parse_line cfg buf data_len) (protocol_mgr st) = Inl OutOfRangeCoordinate"
    using assms(4) by (simp add: parse_line_closed[OF assms(3)] add_line_def pack_line_def)
  then show ?thesis by (simp add: upd_stage2_frame[OF assms(1,2)])
qed

text \<open>
  C8. For a non-empty frame received in stage 2 whose points fit the working
  line, the duration of the parsed line is the first two buffer bytes read as a
  big-endian unsigned 16-bit number, every further byte decodes to one point (x
  from the high nibble, y from the low nibble, both shifted by the axis
  minimum), the points of the line are the decoded bytes in order, the point
  after the last one is the null sentinel, and the parsed line is handed to
  \<open>add_line\<close>. When moreover every point lies on the grid and the program has
  room, the packed line is appended to the program.
\<close>

theorem C8_frame_decoding:
  assumes "loading_stage st = 2" and "0 < data_len"
    and "data_len \<le> MAX_POINTS_PER_LINE cfg + 2"
  shows "unat (duration (parse_line cfg buf data_len)) = 256 * unat (buf ! 0) + unat (buf ! 1) \<and>
      (\<forall>i \<in> set [2..<data_len].
          px (unpack_byte cfg (buf ! i)) = int (unat (buf ! i) div 16) + AXIS_MIN cfg \<and>
          py (unpack_byte cfg (buf ! i)) = int (unat (buf ! i) mod 16) + AXIS_MIN cfg) \<and>
      take (data_len - 2) (points (parse_line cfg buf data_len)) =
        map (\<lambda>i. unpack_byte cfg (buf ! i)) [2..<data_len] \<and>
      points (parse_line cfg buf data_len) ! (data_len - 2) = P_null \<and>
      FSM_fun_uploading__upd cfg now (Frame buf data_len) st =
        (case add_line cfg (parse_line cfg buf data_len) (protocol_mgr st) of
           Inl f \<Rightarrow> Inl f
         | Inr (ok, pm) \<Rightarrow> Inr (upd_timeout now (st\<lparr>bin_buf := buf, protocol_mgr := pm\<rparr>))) \<and>
      ((\<forall>i \<in> set [2..<data_len]. in_axis cfg (unpack_byte cfg (buf ! i))) \<and>
       P_NULL_VAL < AXIS_MIN cfg \<and>
       get_N_lines (protocol_mgr st) < PROTOCOL_MAX_LINES cfg \<longrightarrow>
         FSM_fun_uploading__upd cfg now (Frame buf data_len) st =
           Inr (upd_timeout now
             (st\<lparr>bin_buf := buf,
                 protocol_mgr := (protocol_mgr st)\<lparr>program := program (protocol_mgr st) @
                   [\<lparr>ptl_time = duration (parse_line cfg buf data_len),
                     packed = foldl (\<lambda>m p. set_bit_of cfg p m) (replicate (NUMEL_AXIS cfg) 0)
                                (map (\<lambda>i. unpack_byte cfg (buf ! i)) [2..<data_len])\<rparr>]\<rparr>\<rparr>)))"
proof -
  let ?pts = "map (\<lambda>i. unpack_byte cfg (buf ! i)) [2..<data_len]"
  let ?k = "MAX_POINTS_PER_LINE cfg + 1 - (data_len - 2)"
  let ?d = "push_bit 8 (ucast (buf ! 0) :: 16 word) OR ucast (buf ! 1)"
  let ?l = "\<lparr>duration = ?d, points = ?pts @ replicate ?k P_null\<rparr>"
  note f = assms(3)
  have k: "0 < ?k" using f by arith
  have len: "length ?pts = data_len - 2" by simp
  have dur: "unat (duration (parse_line cfg buf data_len)) = 256 * unat (buf ! 0) + unat (buf ! 1)"
    by (simp only: parse_line_duration unat_big_endian)
  have nib: "\<forall>i \<in> set [2..<data_len].
          px (unpack_byte cfg (buf ! i)) = int (unat (buf ! i) div 16) + AXIS_MIN cfg \<and>
          py (unpack_byte cfg (buf ! i)) = int (unat (buf ! i) mod 16) + AXIS_MIN cfg"
    using unpack_byte_nibbles by blast
  have hand: "FSM_fun_uploading__upd cfg now (Frame buf data_len) st =
        (case add_line cfg (parse_line cfg buf data_len) (protocol_mgr st) of
           Inl f \<Rightarrow> Inl f
         | Inr (ok, pm) \<Rightarrow> Inr (upd_timeout now (st\<lparr>bin_buf := buf, protocol_mgr := pm\<rparr>)))"
    by (rule upd_stage2_frame[OF assms(1,2)])
  have "points ?l ! (data_len - 2) = P_null"
    using k len by (simp add: nth_append del: replicate.simps)
  then have sent: "points (parse_line cfg buf data_len) ! (data_len - 2) = P_null"
    unfolding parse_line_closed[OF f] .
  have "take (data_len - 2) (points ?l) = ?pts"
    using len by simp
  then have tk: "take (data_len - 2) (points (parse_line cfg buf data_len)) = ?pts"
    unfolding parse_line_closed[OF f] .
  have app: "FSM_fun_uploading__upd cfg now (Frame buf data_len) st =
           Inr (upd_timeout now
             (st\<lparr>bin_buf := buf,
                 protocol_mgr := (protocol_mgr st)\<lparr>program := program (protocol_mgr st) @
                   [\<lparr>ptl_time = duration (parse_line cfg buf data_len),
                     packed = foldl (\<lambda>m p. set_bit_of cfg p m) (replicate (NUMEL_AXIS cfg) 0)
                                ?pts\<rparr>]\<rparr>\<rparr>))"
    if g: "\<forall>i \<in> set [2..<data_len]. in_axis cfg (unpack_byte cfg (buf ! i))"
      and n: "P_NULL_VAL < AXIS_MIN cfg"
      and r: "get_N_lines (protocol_mgr st) < PROTOCOL_MAX_LINES cfg"
  proof -
    have al: "add_line cfg ?l (protocol_mgr st) =
       Inr (True, (protocol_mgr st)\<lparr>program := program (protocol_mgr st) @
          [\<lparr>ptl_time = ?d,
            packed = foldl (\<lambda>m p. set_bit_of cfg p m) (replicate (NUMEL_AXIS cfg) 0) ?pts\<rparr>]\<rparr>)"
      using add_line_appends[of "protocol_mgr st" cfg ?pts ?k ?d] g n r k by simp
    show ?thesis
      unfolding hand parse_line_duration using al
      by (simp add: parse_line_closed[OF f])
  qed
  show ?thesis
    using dur nib tk sent hand app by blast
qed

theorem C8_frame_decoding_witness:
  "loading_stage (grid3_uploading 2 2 []) = 2 \<and> (0 :: nat) < 3 \<and>
   3 \<le> MAX_POINTS_PER_LINE grid3_cfg + 2 \<and>
   in_axis grid3_cfg (unpack_byte grid3_cfg (frame_500_origin ! 2)) \<and>
   P_NULL_VAL < AXIS_MIN grid3_cfg \<and>
   get_N_lines (protocol_mgr (grid3_uploading 2 2 [])) < PROTOCOL_MAX_LINES grid3_cfg \<and>
   unat (duration (parse_line grid3_cfg frame_500_origin 3)) = 500 \<and>
   take 1 (points (parse_line grid3_cfg frame_500_origin 3)) = [\<lparr>px = 0, py = 0\<rparr>] \<and>
   points (parse_line grid3_cfg frame_500_origin 3) ! 1 = P_null \<and>
   FSM_fun_uploading__upd grid3_cfg 100 (Frame frame_500_origin 3) (grid3_uploading 2 2 []) =
     Inr ((grid3_uploading 2 2 [])
           \<lparr>bin_buf := frame_500_origin,
            protocol_mgr := (protocol_mgr (grid3_uploading 2 2 []))
               \<lparr>program := [\<lparr>ptl_time = 500, packed = [0, 2, 0]\<rparr>]\<rparr>\<rparr>)"
proof -
  have h1: "loading_stage (grid3_uploading 2 2 []) = 2"
    by (simp add: grid3_uploading_def)
  have h2: "(0 :: nat) < 3" by simp
  have h3: "3 \<le> MAX_POINTS_PER_LINE grid3_cfg + 2" by (simp add: grid3_cfg_def)
  have h4: "get_N_lines (protocol_mgr (grid3_uploading 2 2 [])) < PROTOCOL_MAX_LINES grid3_cfg"
    by (simp add: grid3_uploading_def grid3_cfg_def get_N_lines_def FSM_fun_uploading__ent_def
        initial_globals_def new_ProtocolManager_def clear_def)
  have h5: "P_NULL_VAL < AXIS_MIN grid3_cfg" by (simp add: grid3_cfg_def P_NULL_VAL_def)
  have b2: "frame_500_origin ! 2 = 0x11" "frame_500_origin ! 0 = 1" "frame_500_origin ! Suc 0 = 0xF4"
    by (simp_all add: frame_500_origin_def)
  have u: "unpack_byte grid3_cfg 0x11 = \<lparr>px = 0, py = 0\<rparr>"
    by code_simp
  have up: "[2..<3] = [2::nat]" by (simp add: upt_rec)
  have h6': "in_axis grid3_cfg (unpack_byte grid3_cfg (frame_500_origin ! 2))"
    by (simp add: b2 u in_axis_def) (simp add: grid3_cfg_def)
  then have h6: "\<forall>i \<in> set [2..<3]. in_axis grid3_cfg (unpack_byte grid3_cfg (frame_500_origin ! i))"
    by (simp add: up)
  have p0: "program (protocol_mgr (grid3_uploading 2 2 [])) = []"
    by (simp add: grid3_uploading_def FSM_fun_uploading__ent_def clear_def)
  have t: "upd_timeout 100 s = s" if "fsm_change_time s = 0" for s
    using that by (simp add: upd_timeout_def timeInCurrentState_def LOADING_TIMEOUT_def)
  have c: "fsm_change_time (grid3_uploading 2 2 []) = 0"
    by (simp add: grid3_uploading_def FSM_fun_uploading__ent_def initial_globals_def)
  have pk: "set_bit_of grid3_cfg \<lparr>px = 0, py = 0\<rparr> (replicate (NUMEL_AXIS grid3_cfg) 0) = [0, 2, 0]"
    by (simp add: NUMEL_AXIS_def grid3_cfg_def numeral_3_eq_3 set_bit_of_def)
  note C = C8_frame_decoding[OF h1 h2 h3, of frame_500_origin 100]
  have d: "unat (duration (parse_line grid3_cfg frame_500_origin 3)) = 500"
    using C by (simp add: b2)
  have d': "duration (parse_line grid3_cfg frame_500_origin 3) = 500"
    by (simp add: parse_line_duration b2)
  have f: "take 1 (points (parse_line grid3_cfg frame_500_origin 3)) = [\<lparr>px = 0, py = 0\<rparr>] \<and>
      points (parse_line grid3_cfg frame_500_origin 3) ! 1 = P_null"
    using C by (simp add: up b2 u)
  have a: "FSM_fun_uploading__upd grid3_cfg 100 (Frame frame_500_origin 3) (grid3_uploading 2 2 []) =
     Inr ((grid3_uploading 2 2 [])
           \<lparr>bin_buf := frame_500_origin,
            protocol_mgr := (protocol_mgr (grid3_uploading 2 2 []))
               \<lparr>program := [\<lparr>ptl_time = 500, packed = [0, 2, 0]\<rparr>]\<rparr>\<rparr>)"
    using C[THEN conjunct2, THEN conjunct2, THEN conjunct2, THEN conjunct2, THEN conjunct2, THEN mp,
        OF conjI[OF h6 conjI[OF h5 h4]]]
    by (simp add: up b2 u p0 t c pk d')
  show ?thesis using h1 h2 h3 h4 h5 h6' d f a by blast
qed

text \<open>
  On the small grid a frame whose point byte is \<open>0xFF\<close> halts the firmware with
  nothing appended, and a frame that arrives with the program full is decoded
  and dropped: the program stays as it was.
\<close>

theorem C8_not_appended_counterexample:
  "FSM_fun_uploading__upd grid3_cfg 100 (Frame frame_off_grid 3) (grid3_uploading 2 2 []) =
     Inl OutOfRangeCoordinate \<and>
   FSM_fun_uploading__upd grid3_cfg 100 (Frame frame_500_origin 3) grid3_full =
     Inr (grid3_full\<lparr>bin_buf := frame_500_origin\<rparr>) \<and>
   program (protocol_mgr (grid3_full\<lparr>bin_buf := frame_500_origin\<rparr>)) =
     program (protocol_mgr grid3_full)"
proof -
  have h1: "loading_stage (grid3_uploading 2 2 []) = 2"
    by (simp add: grid3_uploading_def)
  have h3: "3 \<le> MAX_POINTS_PER_LINE grid3_cfg + 2" by (simp add: grid3_cfg_def)
  have h4: "get_N_lines (protocol_mgr (grid3_uploading 2 2 [])) \<noteq> PROTOCOL_MAX_LINES grid3_cfg"
    by (simp add: grid3_uploading_def grid3_cfg_def get_N_lines_def FSM_fun_uploading__ent_def
        initial_globals_def new_ProtocolManager_def clear_def)
  have h5: "P_NULL_VAL < AXIS_MIN grid3_cfg" by (simp add: grid3_cfg_def P_NULL_VAL_def)
  have b2: "frame_off_grid ! 2 = 0xFF" by (simp add: frame_off_grid_def)
  have u: "unpack_byte grid3_cfg 0xFF = \<lparr>px = 14, py = 14\<rparr>"
    by code_simp
  have up: "[2..<3] = [2::nat]" by (simp add: upt_rec)
  have h6: "\<exists>i \<in> set [2..<3]. \<not> in_axis grid3_cfg (unpack_byte grid3_cfg (frame_off_grid ! i))"
    by (simp add: up b2 u in_axis_def) (simp add: grid3_cfg_def)
  have A: "FSM_fun_uploading__upd grid3_cfg 100 (Frame frame_off_grid 3) (grid3_uploading 2 2 []) =
     Inl OutOfRangeCoordinate"
    by (rule upd_off_grid_halts[OF h1 _ h3 h4 h5 h6]) simp
  have f1: "loading_stage grid3_full = 2"
    by (simp add: grid3_full_def grid3_uploading_def)
  have f3: "get_N_lines (protocol_mgr grid3_full) = PROTOCOL_MAX_LINES grid3_cfg"
    by (simp add: grid3_full_def get_N_lines_def grid3_cfg_def)
  have c: "fsm_change_time grid3_full = 0"
    by (simp add: grid3_full_def grid3_uploading_def FSM_fun_uploading__ent_def initial_globals_def)
  have t: "upd_timeout 100 s = s" if "fsm_change_time s = 0" for s
    using that by (simp add: upd_timeout_def timeInCurrentState_def LOADING_TIMEOUT_def)
  have B: "FSM_fun_uploading__upd grid3_cfg 100 (Frame frame_500_origin 3) grid3_full =
     Inr (grid3_full\<lparr>bin_buf := frame_500_origin\<rparr>)"
    using upd_full_store[OF f1 _ f3, of 3 100 frame_500_origin] by (simp add: t c)
  show ?thesis using A B by simp
qed



subsection \<open>Capacity and time-out\<close>

lemma unat_promise: "unat (word_of_int k :: 16 word) = nat (k mod 65536)"
  by (simp add: unsigned_of_int take_bit_eq_mod nat_take_bit_eq)

lemma upd_capacity_error:
  assumes "takes_count_over_capacity cfg st"
  shows "\<exists>c s. FSM_fun_uploading__upd cfg now b st = Inr s \<and> over_capacity cfg c \<and>
      serial_out s = (if loading_stage st = 0
                      then serial_out st @ [EchoName (hd (sc_pending st))] else serial_out st) @
                     [ErrCapacity (word_of_int (atoi c)) (PROTOCOL_MAX_LINES cfg)] \<and>
      \<not> loading_program s \<and> fsm_next s = state_off \<and> fsm_change_time s = now \<and>
      fsm_current s = fsm_current st \<and>
      program (protocol_mgr s) = program (protocol_mgr st) \<and>
      loading_successful s = loading_successful st"
  using assms
  by (auto simp: takes_count_over_capacity_def over_capacity_def FSM_fun_uploading__upd_def
      upd_stage0_def upd_stage1_def Let_def unat_promise println_def transitionTo_def
      set_name_def get_name_def
      split: if_splits list.splits)

lemma upd_stage1_accept:
  assumes "loading_stage st = 1" and "sc_pending st = c # cs"
    and "\<not> PROTOCOL_MAX_LINES cfg < nat (atoi c mod 65536)"
  shows "FSM_fun_uploading__upd cfg now NoFrame st =
    Inr (upd_timeout now
      (st\<lparr>sc_pending := cs, promised_N_lines := word_of_int (atoi c),
          serial_out := serial_out st @ [EchoCount (word_of_int (atoi c))],
          loading_stage := 2\<rparr>))"
  using assms
  by (simp add: FSM_fun_uploading__upd_def upd_stage0_def upd_stage1_def upd_stage2_def Let_def
      unat_promise println_def numeral_2_eq_2)

text \<open>
  C4. The token 65536 promises more lines than the capacity of 5000, yet the
  16-bit variable that takes it holds 0: the update in stage 1 reports no
  capacity error, echoes 0 and moves on to stage 2 with the loading flag set.
\<close>

theorem C4_wrapped_count:
  "int (PROTOCOL_MAX_LINES grid3_cfg) < atoi ''65536'' \<and>
   loading_stage (grid3_uploading 1 0 [''65536'']) = 1 \<and>
   FSM_fun_uploading__upd grid3_cfg 100 NoFrame (grid3_uploading 1 0 [''65536'']) =
     Inr ((grid3_uploading 1 0 [''65536''])
            \<lparr>sc_pending := [], promised_N_lines := 0, serial_out := [EchoCount 0],
             loading_stage := 2\<rparr>) \<and>
   loading_program
     ((grid3_uploading 1 0 [''65536''])
            \<lparr>sc_pending := [], promised_N_lines := 0, serial_out := [EchoCount 0],
             loading_stage := 2\<rparr>) \<and>
   fsm_next
     ((grid3_uploading 1 0 [''65536''])
            \<lparr>sc_pending := [], promised_N_lines := 0, serial_out := [EchoCount 0],
             loading_stage := 2\<rparr>) = state_uploading"
proof -
  have a: "atoi ''65536'' = 65536" by code_simp
  have m: "PROTOCOL_MAX_LINES grid3_cfg = 5000" by (simp add: grid3_cfg_def)
  have z: "(word_of_int 65536 :: 16 word) = 0" by simp
  have h1: "loading_stage (grid3_uploading 1 0 [''65536'']) = 1"
    by (simp add: grid3_uploading_def)
  have h2: "sc_pending (grid3_uploading 1 0 [''65536'']) = [''65536'']"
    by (simp add: grid3_uploading_def)
  have h3: "\<not> PROTOCOL_MAX_LINES grid3_cfg < nat (atoi ''65536'' mod 65536)"
    unfolding a m by simp
  have s: "serial_out (grid3_uploading 1 0 [''65536'']) = []"
    by (simp add: grid3_uploading_def FSM_fun_uploading__ent_def initial_globals_def)
  have t: "upd_timeout 100 s = s" if "fsm_change_time s = 0" for s
    using that by (simp add: upd_timeout_def timeInCurrentState_def LOADING_TIMEOUT_def)
  have c: "fsm_change_time (grid3_uploading k n cs) = 0" for k n cs
    by (simp add: grid3_uploading_def FSM_fun_uploading__ent_def initial_globals_def)
  have "FSM_fun_uploading__upd grid3_cfg 100 NoFrame (grid3_uploading 1 0 [''65536'']) =
     Inr ((grid3_uploading 1 0 [''65536''])
            \<lparr>sc_pending := [], promised_N_lines := 0, serial_out := [EchoCount 0],
             loading_stage := 2\<rparr>)"
    unfolding upd_stage1_accept[OF h1 h2 h3] a s z by (simp add: t c)
  moreover have "int (PROTOCOL_MAX_LINES grid3_cfg) < atoi ''65536''"
    unfolding a m by simp
  moreover have "loading_program
     ((grid3_uploading 1 0 [''65536''])
            \<lparr>sc_pending := [], promised_N_lines := 0, serial_out := [EchoCount 0],
             loading_stage := 2\<rparr>) \<and>
   fsm_next
     ((grid3_uploading 1 0 [''65536''])
            \<lparr>sc_pending := [], promised_N_lines := 0, serial_out := [EchoCount 0],
             loading_stage := 2\<rparr>) = state_uploading"
    by (simp add: grid3_uploading_def FSM_fun_uploading__ent_def)
  ultimately show ?thesis using h1 by blast
qed

lemma stage01_falls:
  assumes "\<not> takes_count_over_capacity cfg st"
  shows "\<exists>s. upd_stage1 cfg now (upd_stage0 st) = Falls s \<and>
             loading_successful s = loading_successful st \<and>
             fsm_change_time s = fsm_change_time st"
  using assms
  by (auto simp: upd_stage0_def upd_stage1_def Let_def unat_promise println_def
      takes_count_over_capacity_def over_capacity_def
      split: list.splits if_splits)

lemma stage2_falls:
  assumes "\<not> is_EOP b" and "upd_stage2 cfg now b s = Inr r"
  shows "\<exists>s'. r = Falls s' \<and> loading_successful s' = loading_successful s \<and>
              fsm_change_time s' = fsm_change_time s"
  using assms
  by (auto simp: upd_stage2_def is_EOP_def Let_def
      split: if_splits bsc_result.splits sum.splits prod.splits)

lemma upd_falls_timeout:
  assumes "LOADING_TIMEOUT < timeInCurrentState now st"
    and "\<not> takes_count_over_capacity cfg st" and "\<not> is_EOP b"
    and "FSM_fun_uploading__upd cfg now b st = Inr st'"
  shows "\<exists>s. st' = transitionTo now state_off ((println ErrTimeout s)\<lparr>loading_program := False\<rparr>)
           \<and> loading_successful s = loading_successful st"
proof -
  from stage01_falls[OF assms(2), of now]
  obtain s1 where s1: "upd_stage1 cfg now (upd_stage0 st) = Falls s1"
      "loading_successful s1 = loading_successful st" "fsm_change_time s1 = fsm_change_time st"
    by blast
  from assms(4) s1(1) obtain r where r: "upd_stage2 cfg now b s1 = Inr r"
    by (auto simp: FSM_fun_uploading__upd_def split: sum.splits)
  from stage2_falls[OF assms(3) r]
  obtain s2 where s2: "r = Falls s2" "loading_successful s2 = loading_successful s1"
      "fsm_change_time s2 = fsm_change_time s1"
    by blast
  have "st' = upd_timeout now s2"
    using assms(4) s1(1) r s2(1) by (simp add: FSM_fun_uploading__upd_def)
  moreover have "LOADING_TIMEOUT < timeInCurrentState now s2"
    using assms(1) s1(3) s2(3) by (simp add: timeInCurrentState_def)
  ultimately have "st' = transitionTo now state_off ((println ErrTimeout s2)\<lparr>loading_program := False\<rparr>)"
    by (simp add: upd_timeout_def)
  then show ?thesis using s1(2) s2(2) by auto
qed

lemma upd_NoFrame_returns: "\<exists>s. FSM_fun_uploading__upd cfg now NoFrame st = Inr s"
  by (simp add: FSM_fun_uploading__upd_def upd_stage2_def split: ctl.splits)

text \<open>
  C5 as amended. On every update of the upload whose time in the state exceeds
  the deadline of 4000 ms, and which does not itself end the upload first (it
  takes neither a line count over capacity nor the end-of-program frame) and
  does not halt, the time-out is reported last, the loading flag is cleared,
  the transition to Off is requested and the upload has not succeeded; this
  holds in every stage and for any number of lines already stored. With no
  frame arriving the update always returns.
\<close>

theorem C5_timeout_fails:
  assumes "LOADING_TIMEOUT < timeInCurrentState now st"
    and "\<not> loading_successful st"
    and "\<not> takes_count_over_capacity cfg st" and "\<not> is_EOP b"
  shows "(b = NoFrame \<longrightarrow> (\<exists>s. FSM_fun_uploading__upd cfg now b st = Inr s)) \<and>
         (\<forall>st'. FSM_fun_uploading__upd cfg now b st = Inr st' \<longrightarrow>
            last (serial_out st') = ErrTimeout \<and> \<not> loading_program st' \<and>
            fsm_next st' = state_off \<and> \<not> loading_successful st')"
proof (intro conjI allI impI)
  assume "b = NoFrame"
  then show "\<exists>s. FSM_fun_uploading__upd cfg now b st = Inr s"
    using upd_NoFrame_returns by simp
next
  fix st'
  assume "FSM_fun_uploading__upd cfg now b st = Inr st'"
  from upd_falls_timeout[OF assms(1,3,4) this]
  obtain s where s: "st' = transitionTo now state_off ((println ErrTimeout s)\<lparr>loading_program := False\<rparr>)"
      "loading_successful s = loading_successful st"
    by blast
  show "last (serial_out st')  = ErrTimeout" using s by (simp add: transitionTo_def println_def)
  show "\<not> loading_program st'" using s by (simp add: transitionTo_def println_def)
  show "fsm_next st' = state_off" using s by (simp add: transitionTo_def println_def)
  show "\<not> loading_successful st'" using s assms(2) by (simp add: transitionTo_def println_def)
qed

theorem C5_timeout_fails_witness:
  "LOADING_TIMEOUT < timeInCurrentState 5000 (grid3_uploading 2 1 []) \<and>
   \<not> loading_successful (grid3_uploading 2 1 []) \<and>
   \<not> takes_count_over_capacity grid3_cfg (grid3_uploading 2 1 []) \<and>
   \<not> is_EOP NoFrame \<and>
   (\<exists>s. FSM_fun_uploading__upd grid3_cfg 5000 NoFrame (grid3_uploading 2 1 []) = Inr s \<and>
        last (serial_out s) = ErrTimeout \<and> \<not> loading_program s \<and>
        fsm_next s = state_off \<and> \<not> loading_successful s)"
proof -
  have h1: "LOADING_TIMEOUT < timeInCurrentState 5000 (grid3_uploading 2 1 [])"
    by (simp add: LOADING_TIMEOUT_def timeInCurrentState_def grid3_uploading_def
        FSM_fun_uploading__ent_def initial_globals_def)
  have h2: "\<not> loading_successful (grid3_uploading 2 1 [])"
    by (simp add: grid3_uploading_def FSM_fun_uploading__ent_def)
  have h3: "\<not> takes_count_over_capacity grid3_cfg (grid3_uploading 2 1 [])"
    by (simp add: takes_count_over_capacity_def grid3_uploading_def)
  have h4: "\<not> is_EOP NoFrame" by (simp add: is_EOP_def)
  from C5_timeout_fails[OF h1 h2 h3 h4]
  show ?thesis using h1 h2 h3 h4 by blast
qed

lemma grid3_first_update:
  "FSM_fun_uploading__upd grid3_cfg 3999 (Frame frame_500_origin 3)
     (grid3_uploading 0 0 [''T'', ''1'']) = Inr grid3_one_line"
proof -
  have a: "atoi ''1'' = 1" by code_simp
  have pl: "parse_line grid3_cfg frame_500_origin 3 =
      \<lparr>duration = 500, points = \<lparr>px = 0, py = 0\<rparr> # replicate 9 P_null\<rparr>"
  proof -
    have "3 \<le> MAX_POINTS_PER_LINE grid3_cfg + 2" by (simp add: grid3_cfg_def)
    from parse_line_closed[OF this, of frame_500_origin]
    show ?thesis
      by (simp add: upt_rec frame_500_origin_def unpack_byte_def grid3_cfg_def)
  qed
  have pk: "pack_line grid3_cfg \<lparr>duration = 500, points = \<lparr>px = 0, py = 0\<rparr> # replicate 9 P_null\<rparr>
      = Inr \<lparr>ptl_time = 500, packed = [0, 2, 0]\<rparr>"
    by (simp add: pack_line_def is_null_def P_null_def P_NULL_VAL_def in_axis_def set_bit_of_def
        NUMEL_AXIS_def grid3_cfg_def eval_nat_numeral)
  have m: "PROTOCOL_MAX_LINES grid3_cfg = 5000" by (simp add: grid3_cfg_def)
  show ?thesis
    by (simp add: FSM_fun_uploading__upd_def upd_stage0_def upd_stage1_def upd_stage2_def
        grid3_uploading_def grid3_one_line_def Let_def println_def a pl pk add_line_def
        set_name_def get_name_def get_N_lines_def FSM_fun_uploading__ent_def clear_def
        initial_globals_def new_ProtocolManager_def upd_timeout_def timeInCurrentState_def
        LOADING_TIMEOUT_def m)
qed

text \<open>
  C5 as stated fails: 4002 ms after the entry into Uploading, with the promised
  line stored, the end-of-program frame arrives; the update reports success and
  returns before the time-out check.
\<close>

theorem C5_late_EOP_counterexample:
  "FSM_fun_uploading__upd grid3_cfg 3999 (Frame frame_500_origin 3)
     (grid3_uploading 0 0 [''T'', ''1'']) = Inr grid3_one_line \<and>
   loading_program grid3_one_line \<and>
   LOADING_TIMEOUT < timeInCurrentState 4002 grid3_one_line \<and>
   FSM_fun_uploading__upd grid3_cfg 4002 (Frame frame_500_origin 0) grid3_one_line =
     Inr (grid3_one_line
            \<lparr>serial_out := [EchoName ''T'', EchoCount 1, Success],
             loading_successful := True, loading_program := False,
             fsm_next := state_off, fsm_change_time := 4002\<rparr>)"
proof -
  have "loading_program grid3_one_line"
    by (simp add: grid3_one_line_def grid3_uploading_def FSM_fun_uploading__ent_def)
  moreover have "LOADING_TIMEOUT < timeInCurrentState 4002 grid3_one_line"
    by (simp add: grid3_one_line_def grid3_uploading_def FSM_fun_uploading__ent_def
        initial_globals_def LOADING_TIMEOUT_def timeInCurrentState_def)
  moreover have "FSM_fun_uploading__upd grid3_cfg 4002 (Frame frame_500_origin 0) grid3_one_line =
     Inr (grid3_one_line
            \<lparr>serial_out := [EchoName ''T'', EchoCount 1, Success],
             loading_successful := True, loading_program := False,
             fsm_next := state_off, fsm_change_time := 4002\<rparr>)"
    by (simp add: FSM_fun_uploading__upd_def upd_stage0_def upd_stage1_def upd_stage2_def
        grid3_one_line_def grid3_uploading_def FSM_fun_uploading__ent_def get_N_lines_def
        println_def transitionTo_def)
  ultimately show ?thesis using grid3_first_update by blast
qed

subsection \<open>The fail-safe program\<close>

lemma fill_valves_closed:
  "1 \<le> i \<Longrightarrow> i \<le> Suc (N_VALVES cfg) \<Longrightarrow> N_VALVES cfg \<le> length (points l) \<Longrightarrow>
   fill_valves cfg i l =
     l\<lparr>points := take (i - 1) (points l) @ map (valve2p cfg) [i..<Suc (N_VALVES cfg)]
                    @ drop (N_VALVES cfg) (points l)\<rparr>"
proof (induction cfg i l rule: fill_valves.induct)
  case (1 cfg i l)
  show ?case
  proof (cases "i \<le> N_VALVES cfg")
    case False
    with "1.prems" have "i = Suc (N_VALVES cfg)" by simp
    then show ?thesis by (subst fill_valves.simps) simp
  next
    case True
    let ?l' = "l\<lparr>points := (points l)[i - 1 := valve2p cfg i]\<rparr>"
    have sp: "set_point (i - 1) (valve2p cfg i) l = ?l'"
      by (simp add: set_point_def)
    have ih: "fill_valves cfg (Suc i) ?l' =
       ?l'\<lparr>points := take (Suc i - 1) (points ?l') @ map (valve2p cfg) [Suc i..<Suc (N_VALVES cfg)]
                         @ drop (N_VALVES cfg) (points ?l')\<rparr>"
      using "1.IH"[OF True] True "1.prems" unfolding sp by simp
    have t: "take (Suc i - 1) (points ?l') = take (i - 1) (points l) @ [valve2p cfg i]"
    proof -
      have "i - 1 < length (points l)" using True "1.prems" by arith
      then have "take (Suc (i - 1)) ((points l)[i - 1 := valve2p cfg i]) =
                 take (i - 1) (points l) @ [valve2p cfg i]"
        by (simp add: take_Suc_conv_app_nth)
      moreover have "Suc i - 1 = Suc (i - 1)" using "1.prems" by arith
      ultimately show ?thesis by simp
    qed
    have d: "drop (N_VALVES cfg) (points ?l') = drop (N_VALVES cfg) (points l)"
      using True "1.prems" by simp
    have u: "[i..<Suc (N_VALVES cfg)] = i # [Suc i..<Suc (N_VALVES cfg)]"
      using True by (simp add: upt_conv_Cons)
    have "fill_valves cfg i l = fill_valves cfg (Suc i) ?l'"
      using True sp by (subst fill_valves.simps) simp
    then show ?thesis
      unfolding ih t d u by simp
  qed
qed

lemma all_valves_line_closed:
  assumes "N_VALVES cfg \<le> MAX_POINTS_PER_LINE cfg"
  shows "all_valves_line cfg =
     \<lparr>duration = 1000,
      points = map (valve2p cfg) [1..<Suc (N_VALVES cfg)]
               @ replicate (MAX_POINTS_PER_LINE cfg + 1 - N_VALVES cfg) P_null\<rparr>"
proof -
  let ?M = "MAX_POINTS_PER_LINE cfg + 1"
  let ?l = "\<lparr>duration = 1000, points = replicate ?M P_null\<rparr>"
  let ?vs = "map (valve2p cfg) [1..<Suc (N_VALVES cfg)]"
  let ?r = "\<lparr>duration = 1000, points = ?vs @ replicate (?M - N_VALVES cfg) P_null\<rparr>"
  have l: "(new_Line cfg)\<lparr>duration := 1000\<rparr> = ?l" by (simp add: new_Line_def)
  have "N_VALVES cfg \<le> length (points ?l)" using assms by simp
  from fill_valves_closed[OF _ _ this, of 1]
  have fv: "fill_valves cfg 1 ?l = ?r"
    by (simp del: replicate.simps)
  have sp: "set_point (N_VALVES cfg) P_null ?r = ?r"
  proof -
    have len: "length ?vs = N_VALVES cfg" by simp
    have "(?vs @ replicate (?M - N_VALVES cfg) P_null)[N_VALVES cfg := P_null]
          = ?vs @ (replicate (?M - N_VALVES cfg) P_null)[0 := P_null]"
      using len by (simp add: list_update_append del: replicate.simps)
    also have "(replicate (?M - N_VALVES cfg) P_null)[0 := P_null] = replicate (?M - N_VALVES cfg) P_null"
      by (rule nth_equalityI) (auto simp: nth_list_update simp del: replicate.simps)
    finally show ?thesis using len by (simp add: set_point_def del: replicate.simps)
  qed
  show ?thesis
    unfolding all_valves_line_def l fv using sp by (simp del: replicate.simps)
qed

lemma ext_failed:
  assumes "config_ok cfg" and "\<not> loading_successful st"
  shows "FSM_fun_uploading__ext cfg st =
     Inr (st\<lparr>protocol_mgr := prime_start
            ((set_name ''All valves open'' (clear (protocol_mgr st)))
               \<lparr>program := [\<lparr>ptl_time = 1000, packed = all_valves_packed cfg\<rparr>]\<rparr>)\<rparr>)"
proof -
  let ?pm = "set_name ''All valves open'' (clear (protocol_mgr st))"
  let ?vs = "map (valve2p cfg) [1..<Suc (N_VALVES cfg)]"
  let ?k = "MAX_POINTS_PER_LINE cfg + 1 - N_VALVES cfg"
  have nv: "N_VALVES cfg \<le> MAX_POINTS_PER_LINE cfg" using assms(1) by (simp add: config_ok_def)
  have k: "0 < ?k" using nv by arith
  have n0: "get_N_lines ?pm \<noteq> PROTOCOL_MAX_LINES cfg"
    using assms(1) by (simp add: config_ok_def get_N_lines_def set_name_def clear_def)
  have ax: "\<forall>p \<in> set ?vs. in_axis cfg p" using assms(1) by (simp add: config_ok_def)
  have nn: "P_NULL_VAL < AXIS_MIN cfg" using assms(1) by (simp add: config_ok_def)
  have al: "add_line cfg \<lparr>duration = 1000, points = ?vs @ replicate ?k P_null\<rparr> ?pm =
     Inr (True, ?pm\<lparr>program := program ?pm @
        [\<lparr>ptl_time = 1000, packed = all_valves_packed cfg\<rparr>]\<rparr>)"
    unfolding all_valves_packed_def by (rule add_line_appends[OF n0 ax nn k])
  have p0: "program ?pm = []" by (simp add: set_name_def clear_def)
  show ?thesis
    using assms(2) al p0 by (simp add: FSM_fun_uploading__ext_def all_valves_line_closed[OF nv])
qed

lemma ext_succeeded:
  "loading_successful st \<Longrightarrow>
   FSM_fun_uploading__ext cfg st = Inr (st\<lparr>protocol_mgr := prime_start (protocol_mgr st)\<rparr>)"
  by (simp add: FSM_fun_uploading__ext_def)

lemma length_set_bit_of [simp]: "length (set_bit_of cfg p ms) = length ms"
  by (simp add: set_bit_of_def Let_def)

lemma length_foldl_set_bit [simp]:
  "length (foldl (\<lambda>m p. set_bit_of cfg p m) ms ps) = length ms"
  by (induction ps arbitrary: ms) simp_all

lemma bit_set_bit_of:
  assumes "r < length ms"
  shows "bit (set_bit_of cfg p ms ! r) c \<longleftrightarrow>
         bit (ms ! r) c \<or> (r = nat (py p - AXIS_MIN cfg) \<and> c = nat (px p - AXIS_MIN cfg) \<and> c < 16)"
proof (cases "r = nat (py p - AXIS_MIN cfg)")
  case True
  then show ?thesis
    using assms by (auto simp: set_bit_of_def Let_def bit_or_iff bit_exp_iff push_bit_eq_mult)
next
  case False
  then show ?thesis
    using assms by (simp add: set_bit_of_def Let_def)
qed

lemma bit_foldl_set_bit:
  assumes "r < length ms"
  shows "bit (foldl (\<lambda>m p. set_bit_of cfg p m) ms ps ! r) c \<longleftrightarrow>
         bit (ms ! r) c \<or>
         (\<exists>p \<in> set ps. r = nat (py p - AXIS_MIN cfg) \<and> c = nat (px p - AXIS_MIN cfg) \<and> c < 16)"
  using assms
proof (induction ps arbitrary: ms)
  case Nil
  then show ?case by simp
next
  case (Cons p ps)
  have "r < length (set_bit_of cfg p ms)" using Cons.prems by simp
  from Cons.IH[OF this] show ?case
    using Cons.prems by (auto simp: bit_set_bit_of)
qed

lemma bit_all_valves_packed:
  assumes "r < NUMEL_AXIS cfg"
  shows "bit (all_valves_packed cfg ! r) c \<longleftrightarrow>
         (\<exists>v \<in> set [1..<Suc (N_VALVES cfg)].
            r = nat (py (valve2p cfg v) - AXIS_MIN cfg) \<and>
            c = nat (px (valve2p cfg v) - AXIS_MIN cfg) \<and> c < 16)"
  using assms by (simp add: all_valves_packed_def bit_foldl_set_bit)

lemma in_axis_row_col:
  assumes "config_ok cfg" and "in_axis cfg p"
  shows "nat (py p - AXIS_MIN cfg) < NUMEL_AXIS cfg \<and> nat (px p - AXIS_MIN cfg) < 16"
  using assms by (auto simp: config_ok_def in_axis_def NUMEL_AXIS_def)

lemma every_valve_set:
  assumes "config_ok cfg" and "1 \<le> v" and "v \<le> N_VALVES cfg"
  shows "bit (all_valves_packed cfg ! nat (py (valve2p cfg v) - AXIS_MIN cfg))
             (nat (px (valve2p cfg v) - AXIS_MIN cfg))"
proof -
  have v: "v \<in> set [1..<Suc (N_VALVES cfg)]" using assms(2,3) by auto
  then have "in_axis cfg (valve2p cfg v)" using assms(1) unfolding config_ok_def by blast
  from in_axis_row_col[OF assms(1) this] v show ?thesis
    by (subst bit_all_valves_packed) auto
qed

subsection \<open>Leaving the upload\<close>

lemma upd_keeps_fsm_current:
  "FSM_fun_uploading__upd cfg now b st = Inr st' \<Longrightarrow>
   fsm_current st' = fsm_current st \<and> fsm_need_enter st' = fsm_need_enter st \<and>
   prime_start_calls (protocol_mgr st') = prime_start_calls (protocol_mgr st)"
  by (auto simp: FSM_fun_uploading__upd_def upd_stage0_def upd_stage1_def upd_stage2_def
      upd_timeout_def Let_def println_def transitionTo_def set_name_def add_line_def
      split: if_splits list.splits bsc_result.splits sum.splits prod.splits ctl.splits)

lemma upd_ends_in_off:
  "FSM_fun_uploading__upd cfg now b st = Inr st' \<Longrightarrow> loading_program st \<Longrightarrow>
   \<not> loading_program st' \<Longrightarrow> fsm_next st' = state_off"
  by (auto simp: FSM_fun_uploading__upd_def upd_stage0_def upd_stage1_def upd_stage2_def
      upd_timeout_def Let_def println_def transitionTo_def
      split: if_splits list.splits bsc_result.splits sum.splits prod.splits ctl.splits)

lemma config_ok_grid3: "config_ok grid3_cfg"
  by (simp add: config_ok_def grid3_cfg_def P_NULL_VAL_def in_axis_def grid3_valve2p_def
      upt_rec)

subsection \<open>What the state machine and the command listener leave alone\<close>

lemma same_safety_io_refl [simp]: "same_safety_io st st"
  by (simp add: same_safety_io_def)

lemma same_safety_io_trans:
  "same_safety_io a b \<Longrightarrow> same_safety_io b c \<Longrightarrow> same_safety_io a c"
  by (simp add: same_safety_io_def)

lemma stage0_same [simp]: "same_safety_io st (upd_stage0 st)"
  by (simp add: upd_stage0_def same_safety_io_def println_def Let_def split: list.splits)

lemma stage1_same:
  "upd_stage1 cfg now st = Returned s \<or> upd_stage1 cfg now st = Falls s \<Longrightarrow> same_safety_io st s"
  by (auto simp: upd_stage1_def same_safety_io_def println_def transitionTo_def Let_def
      split: list.splits if_splits)

lemma stage2_same:
  "upd_stage2 cfg now b st = Inr (Returned s) \<or> upd_stage2 cfg now b st = Inr (Falls s) \<Longrightarrow>
   same_safety_io st s"
  by (auto simp: upd_stage2_def same_safety_io_def println_def transitionTo_def Let_def
      split: bsc_result.splits if_splits sum.splits prod.splits)

lemma timeout_same [simp]: "same_safety_io st (upd_timeout now st)"
  by (simp add: upd_timeout_def same_safety_io_def println_def transitionTo_def)

lemma upd_same:
  assumes "FSM_fun_uploading__upd cfg now b st = Inr st'"
  shows "same_safety_io st st'"
proof -
  have a: "same_safety_io st (upd_stage0 st)" by simp
  show ?thesis
  proof (cases "upd_stage1 cfg now (upd_stage0 st)")
    case (Returned s)
    then have "st' = s" using assms by (simp add: FSM_fun_uploading__upd_def)
    with Returned stage1_same[of cfg now "upd_stage0 st" s] a show ?thesis
      using same_safety_io_trans by blast
  next
    case (Falls s1)
    then have b1: "same_safety_io st s1"
      using stage1_same[of cfg now "upd_stage0 st" s1] a same_safety_io_trans by blast
    from assms Falls obtain r where r: "upd_stage2 cfg now b s1 = Inr r"
      by (auto simp: FSM_fun_uploading__upd_def split: sum.splits)
    show ?thesis
    proof (cases r)
      case (Returned s)
      then have "st' = s" using assms Falls r by (simp add: FSM_fun_uploading__upd_def)
      with Returned r stage2_same[of cfg now b s1 s] b1 show ?thesis
        using same_safety_io_trans by blast
    next
      case (Falls s2)
      then have "st' = upd_timeout now s2"
        using assms \<open>upd_stage1 cfg now (upd_stage0 st) = Falls s1\<close> r
        by (simp add: FSM_fun_uploading__upd_def)
      moreover have "same_safety_io s1 s2" using Falls r stage2_same[of cfg now b s1 s2] by simp
      ultimately show ?thesis
        using b1 same_safety_io_trans timeout_same by blast
    qed
  qed
qed

lemma ext_same: "FSM_fun_uploading__ext cfg st = Inr st' \<Longrightarrow> same_safety_io st st'"
  by (auto simp: FSM_fun_uploading__ext_def same_safety_io_def split: if_splits sum.splits prod.splits)

lemma enter_same [simp]: "same_safety_io st (fsm_enter s st)"
  by (cases s) (simp_all add: fsm_enter_def same_safety_io_def FSM_fun_off__ent_def
      FSM_fun_uploading__ent_def)

lemma activate_same: "activate cfg now i st = Inr st' \<Longrightarrow> same_safety_io st st'"
  by (auto simp: activate_def same_safety_io_def split: sum.splits)

lemma update_same: "update cfg now st = Inr st' \<Longrightarrow> same_safety_io st st'"
  by (auto simp: update_def dest: activate_same split: option.splits sum.splits if_splits)

lemma fsm_upd_same: "fsm_upd cfg now b s st = Inr st' \<Longrightarrow> same_safety_io st st'"
  by (cases s) (auto simp: fsm_upd_def dest: update_same upd_same)

lemma fsm_exit_same: "fsm_exit cfg s st = Inr st' \<Longrightarrow> same_safety_io st st'"
  by (cases s) (auto simp: fsm_exit_def dest: ext_same)

lemma fsm_update_same:
  assumes "fsm_update cfg now b st = Inr st'"
  shows "same_safety_io st st'"
proof (cases "fsm_need_enter st")
  case True
  then have "st' = fsm_enter (fsm_current st) (st\<lparr>fsm_need_enter := False\<rparr>)"
    using assms by (simp add: fsm_update_def)
  moreover have "same_safety_io st (st\<lparr>fsm_need_enter := False\<rparr>)"
    by (simp add: same_safety_io_def)
  ultimately show ?thesis using enter_same same_safety_io_trans by blast
next
  case False
  show ?thesis
  proof (cases "fsm_current st \<noteq> fsm_next st")
    case True
    with False assms obtain s1 where s1: "fsm_exit cfg (fsm_current st) st = Inr s1"
        "fsm_upd cfg now b (fsm_current (fsm_enter (fsm_next st) (s1\<lparr>fsm_current := fsm_next st, fsm_next := fsm_next st\<rparr>)))
           (fsm_enter (fsm_next st) (s1\<lparr>fsm_current := fsm_next st, fsm_next := fsm_next st\<rparr>)) = Inr st'"
      by (auto simp: fsm_update_def immediateTransitionTo_def split: sum.splits)
    have "same_safety_io st s1" using s1(1) by (rule fsm_exit_same)
    moreover have "same_safety_io s1 (s1\<lparr>fsm_current := fsm_next st, fsm_next := fsm_next st\<rparr>)"
      by (simp add: same_safety_io_def)
    moreover have "same_safety_io (s1\<lparr>fsm_current := fsm_next st, fsm_next := fsm_next st\<rparr>)
        (fsm_enter (fsm_next st) (s1\<lparr>fsm_current := fsm_next st, fsm_next := fsm_next st\<rparr>))"
      by simp
    moreover have "same_safety_io
        (fsm_enter (fsm_next st) (s1\<lparr>fsm_current := fsm_next st, fsm_next := fsm_next st\<rparr>)) st'"
      using s1(2) by (rule fsm_upd_same)
    ultimately show ?thesis using same_safety_io_trans by blast
  next
    case False
    with \<open>\<not> fsm_need_enter st\<close> assms show ?thesis
      by (auto simp: fsm_update_def dest: fsm_upd_same)
  qed
qed

lemma goto_line_same: "goto_line cfg now i st = Inr st' \<Longrightarrow> same_safety_io st st'"
  by (auto simp: goto_line_def dest: activate_same)

lemma dispatch_keeps_line:
  assumes "dispatch cfg now c st = Inr st'"
  shows "toggler st' = toggler st \<and> PIN_SAFETY_PULSE_OUT st' = PIN_SAFETY_PULSE_OUT st"
  using assms
  by (auto simp: dispatch_def println_def transitionTo_def Let_def goto_prev_line_def
      goto_next_line_def same_safety_io_def
      dest!: goto_line_same
      split: if_splits sum.splits)

lemma process_commands_keeps_line:
  assumes "process_commands cfg now st = Inr st'"
  shows "toggler st' = toggler st \<and> PIN_SAFETY_PULSE_OUT st' = PIN_SAFETY_PULSE_OUT st"
  using assms
  by (auto simp: process_commands_def Let_def dest!: dispatch_keeps_line
      split: if_splits prod.splits list.splits)

lemma process_commands_loading:
  "loading_program st \<Longrightarrow> process_commands cfg now st = Inr st"
  by (simp add: process_commands_def)

lemma safety_check_same [simp]: "same_safety_io st (safety_check st)"
  by (simp add: safety_check_def same_safety_io_def)

lemma safety_check_loading [simp]: "loading_program (safety_check st) = loading_program st"
  by (simp add: safety_check_def)

lemma safety_pulses_fields [simp]:
  "override_pump_safety (safety_pulses cfg now st) = override_pump_safety st"
  "cp_masks (safety_pulses cfg now st) = cp_masks st"
  "safety__allow_jetting_pump_to_run (safety_pulses cfg now st) =
     safety__allow_jetting_pump_to_run st"
  "loading_program (safety_pulses cfg now st) = loading_program st"
  by (simp_all add: safety_pulses_def Let_def split: prod.splits)

lemma safety_pulses_off:
  "\<not> safety__allow_jetting_pump_to_run st \<Longrightarrow> safety_pulses cfg now st = st"
  by (simp add: safety_pulses_def)

lemma safety_check_fields [simp]:
  "override_pump_safety (safety_check st) = override_pump_safety st"
  "cp_masks (safety_check st) = cp_masks st"
  "toggler (safety_check st) = toggler st"
  "PIN_SAFETY_PULSE_OUT (safety_check st) = PIN_SAFETY_PULSE_OUT st"
  by (simp_all add: safety_check_def)

lemma safety_check_iff:
  "safety__allow_jetting_pump_to_run (safety_check st) =
     (override_pump_safety st \<or> aggregate_mask (cp_masks st) \<noteq> 0)"
  by (simp add: safety_check_def all_masks_are_zero_def)

lemma loop_result:
  assumes "loop cfg inp st = Inr st'"
  shows "\<exists>s1 s2. process_commands cfg (t_now inp) (st\<lparr>sc_pending := sc_pending st @ t_rx inp\<rparr>) = Inr s1 \<and>
           fsm_update cfg (t_now inp) (t_bsc inp) s1 = Inr s2 \<and>
           st' = safety_pulses cfg (t_now inp) (safety_check s2)"
  using assms by (auto simp: loop_def split: sum.splits)

subsection \<open>Passes on the small grid\<close>

lemmas loop_unfold =
  loop_def process_commands_def every_n_millis_def dispatch_def fsm_update_def fsm_enter_def
  fsm_upd_def FSM_fun_off__ent_def safety_check_def safety_pulses_def all_masks_are_zero_def
  Let_def

lemma aggregate_mask_replicate_0 [simp]: "aggregate_mask (replicate n 0) = 0"
  by (simp add: aggregate_mask_zero_iff)

lemma grid3_period: "PERIOD_SAFETY_PULSES grid3_cfg div 2 = 10"
  by (simp add: grid3_cfg_def)

lemma grid3_pass_1:
  "loop grid3_cfg \<lparr>t_now = 0, t_rx = [], t_bsc = NoFrame\<rparr> (initial_globals new_ProtocolManager) =
     Inr ((initial_globals new_ProtocolManager)\<lparr>cmd_timer := Some 0, fsm_need_enter := False\<rparr>)"
  by (simp add: loop_unfold initial_globals_def)

lemma grid3_pass_2:
  "loop grid3_cfg \<lparr>t_now = 10, t_rx = [''override_safety''], t_bsc = NoFrame\<rparr>
     ((initial_globals new_ProtocolManager)\<lparr>cmd_timer := Some 0, fsm_need_enter := False\<rparr>) =
     Inr ((initial_globals new_ProtocolManager)
            \<lparr>override_pump_safety := True, safety__allow_jetting_pump_to_run := True,
             pulse_timer := Some 10, cmd_timer := Some 10, fsm_need_enter := False\<rparr>)"
  by (simp add: loop_unfold initial_globals_def grid3_period)

lemma grid3_pass_3:
  "loop grid3_cfg \<lparr>t_now = 20, t_rx = [], t_bsc = NoFrame\<rparr>
     ((initial_globals new_ProtocolManager)
            \<lparr>override_pump_safety := True, safety__allow_jetting_pump_to_run := True,
             pulse_timer := Some 10, cmd_timer := Some 10, fsm_need_enter := False\<rparr>) =
     Inr grid3_overridden"
  by (simp add: loop_unfold initial_globals_def grid3_period grid3_overridden_def)

lemma grid3_override_run:
  "run grid3_cfg override_ticks (initial_globals new_ProtocolManager) = Inr grid3_overridden"
  by (simp add: override_ticks_def grid3_pass_1 grid3_pass_2 grid3_pass_3)

lemma grid3_restore_pass: "loop grid3_cfg restore_tick grid3_overridden = Inr grid3_restored"
  by (simp add: loop_unfold initial_globals_def grid3_period grid3_overridden_def
      grid3_restored_def restore_tick_def)

lemma grid3_setup: "mcu_setup grid3_cfg = Inr (initial_globals new_ProtocolManager)"
  by (simp add: mcu_setup_def grid3_cfg_def)

subsection \<open>The safety gate in the loop\<close>

text \<open>
  C1. The safety check sets the pump-enable flag to exactly: override set, or
  the OR of all last-committed valve masks nonzero. Every pass of the loop ends
  with the flag in this relation to the override and the masks it leaves; with
  the override clear and every mask zero the flag is false.
\<close>

theorem C1_pump_enable_iff:
  assumes "loop cfg inp st = Inr st'"
  shows "safety__allow_jetting_pump_to_run (safety_check st) =
           (override_pump_safety st \<or> aggregate_mask (cp_masks st) \<noteq> 0) \<and>
         safety__allow_jetting_pump_to_run st' =
           (override_pump_safety st' \<or> aggregate_mask (cp_masks st') \<noteq> 0) \<and>
         (\<not> override_pump_safety st' \<and> (\<forall>m \<in> set (cp_masks st'). m = 0) \<longrightarrow>
            \<not> safety__allow_jetting_pump_to_run st')"
proof -
  from loop_result[OF assms] obtain s2 where
    "st' = safety_pulses cfg (t_now inp) (safety_check s2)"
    by blast
  then have "safety__allow_jetting_pump_to_run st' =
           (override_pump_safety st' \<or> aggregate_mask (cp_masks st') \<noteq> 0)"
    by (simp add: safety_check_iff)
  then show ?thesis by (simp add: safety_check_iff aggregate_mask_zero_iff)
qed

theorem C1_pump_enable_iff_witness:
  "loop grid3_cfg restore_tick grid3_overridden = Inr grid3_restored \<and>
   safety__allow_jetting_pump_to_run grid3_restored =
     (override_pump_safety grid3_restored \<or> aggregate_mask (cp_masks grid3_restored) \<noteq> 0) \<and>
   \<not> safety__allow_jetting_pump_to_run grid3_restored"
proof -
  have "\<not> safety__allow_jetting_pump_to_run grid3_restored"
    by (simp add: grid3_restored_def)
  with C1_pump_enable_iff[OF grid3_restore_pass] grid3_restore_pass show ?thesis by blast
qed

text \<open>
  C2 as stated fails: after \<^verbatim>\<open>override_safety\<close> the pulse line has been toggled
  to high; \<^verbatim>\<open>restore_safety\<close> with every valve closed makes pump-enable false,
  and the line stays high.
\<close>

theorem C2_stuck_high_counterexample:
  "mcu_setup grid3_cfg = Inr (initial_globals new_ProtocolManager) \<and>
   run grid3_cfg override_ticks (initial_globals new_ProtocolManager) = Inr grid3_overridden \<and>
   safety__allow_jetting_pump_to_run grid3_overridden \<and>
   loop grid3_cfg restore_tick grid3_overridden = Inr grid3_restored \<and>
   \<not> safety__allow_jetting_pump_to_run grid3_restored \<and>
   PIN_SAFETY_PULSE_OUT grid3_restored"
  using grid3_setup grid3_override_run grid3_restore_pass
  by (simp add: grid3_restored_def grid3_overridden_def)

text \<open>
  C2 as amended. \<^verbatim>\<open>setup\<close> leaves the pulse line low. In every pass of the loop
  that ends with pump-enable false the line is not written: it stops toggling
  and keeps the level of the last pulse, low or high, and the toggler keeps its
  value.
\<close>

theorem C2_line_keeps_level:
  assumes "loop cfg inp st = Inr st'"
    and "\<not> safety__allow_jetting_pump_to_run st'"
  shows "PIN_SAFETY_PULSE_OUT st' = PIN_SAFETY_PULSE_OUT st \<and> toggler st' = toggler st \<and>
         (\<forall>s0. mcu_setup cfg = Inr s0 \<longrightarrow> \<not> PIN_SAFETY_PULSE_OUT s0 \<and> \<not> toggler s0)"
proof -
  from loop_result[OF assms(1)] obtain s1 s2 where
    s1: "process_commands cfg (t_now inp) (st\<lparr>sc_pending := sc_pending st @ t_rx inp\<rparr>) = Inr s1"
    and s2: "fsm_update cfg (t_now inp) (t_bsc inp) s1 = Inr s2"
    and st': "st' = safety_pulses cfg (t_now inp) (safety_check s2)"
    by blast
  have "\<not> safety__allow_jetting_pump_to_run (safety_check s2)"
    using assms(2) st' by simp
  then have e: "st' = safety_check s2" using st' by (simp add: safety_pulses_off)
  have a: "toggler s1 = toggler st \<and> PIN_SAFETY_PULSE_OUT s1 = PIN_SAFETY_PULSE_OUT st"
    using process_commands_keeps_line[OF s1] by simp
  have b: "same_safety_io s1 s2" using s2 by (rule fsm_update_same)
  have "PIN_SAFETY_PULSE_OUT st' = PIN_SAFETY_PULSE_OUT st \<and> toggler st' = toggler st"
    using e a b by (simp add: same_safety_io_def)
  moreover have "\<forall>s0. mcu_setup cfg = Inr s0 \<longrightarrow> \<not> PIN_SAFETY_PULSE_OUT s0 \<and> \<not> toggler s0"
    by (auto simp: mcu_setup_def initial_globals_def split: sum.splits)
  ultimately show ?thesis by blast
qed

theorem C2_line_keeps_level_witness:
  "loop grid3_cfg restore_tick grid3_overridden = Inr grid3_restored \<and>
   \<not> safety__allow_jetting_pump_to_run grid3_restored \<and>
   PIN_SAFETY_PULSE_OUT grid3_restored = PIN_SAFETY_PULSE_OUT grid3_overridden \<and>
   toggler grid3_restored = toggler grid3_overridden"
proof -
  have n: "\<not> safety__allow_jetting_pump_to_run grid3_restored"
    by (simp add: grid3_restored_def)
  from C2_line_keeps_level[OF grid3_restore_pass n] grid3_restore_pass n
  show ?thesis by blast
qed

subsection \<open>Commands during an upload\<close>

lemma loop_loading_keeps_override:
  assumes "loading_program st" and "loop cfg inp st = Inr st'"
  shows "override_pump_safety st' = override_pump_safety st"
proof -
  from loop_result[OF assms(2)] obtain s1 s2 where
    s1: "process_commands cfg (t_now inp) (st\<lparr>sc_pending := sc_pending st @ t_rx inp\<rparr>) = Inr s1"
    and s2: "fsm_update cfg (t_now inp) (t_bsc inp) s1 = Inr s2"
    and st': "st' = safety_pulses cfg (t_now inp) (safety_check s2)"
    by blast
  have "s1 = st\<lparr>sc_pending := sc_pending st @ t_rx inp\<rparr>"
    using s1 assms(1) by (simp add: process_commands_def)
  moreover have "same_safety_io s1 s2" using s2 by (rule fsm_update_same)
  ultimately show ?thesis using st' by (simp add: same_safety_io_def)
qed

text \<open>
  C10. While the loading flag is set the command listener of the loop does
  nothing: it takes no command and changes no state. Over any run of passes
  that each start with the loading flag set, the override flag keeps its value,
  whatever text arrives; \<^verbatim>\<open>override_safety\<close> and \<^verbatim>\<open>restore_safety\<close> can act
  only once the upload has cleared the flag.
\<close>

theorem C10_no_commands_while_loading:
  assumes "loading_throughout cfg inps st" and "run cfg inps st = Inr st'"
  shows "override_pump_safety st' = override_pump_safety st \<and>
         (loading_program st \<longrightarrow> process_commands cfg now st = Inr st)"
proof -
  have "override_pump_safety st' = override_pump_safety st"
    using assms
  proof (induction inps arbitrary: st)
    case Nil
    then show ?case by simp
  next
    case (Cons inp inps)
    from Cons.prems(2) obtain s1 where s1: "loop cfg inp st = Inr s1" "run cfg inps s1 = Inr st'"
      by (auto split: sum.splits)
    have l: "loading_program st" and t: "loading_throughout cfg inps s1"
      using Cons.prems(1) s1(1) by simp_all
    have "override_pump_safety s1 = override_pump_safety st"
      using loop_loading_keeps_override[OF l s1(1)] .
    with Cons.IH[OF t s1(2)] show ?case by simp
  qed
  then show ?thesis by (simp add: process_commands_loading)
qed

lemma grid3_upload_pass:
  "loop grid3_cfg override_during_upload (grid3_uploading 0 0 []) = Inr grid3_named_override"
  by (simp add: loop_def process_commands_def fsm_update_def fsm_upd_def safety_check_def
      safety_pulses_def all_masks_are_zero_def override_during_upload_def grid3_uploading_def
      grid3_named_override_def FSM_fun_uploading__ent_def initial_globals_def
      FSM_fun_uploading__upd_def upd_stage0_def upd_stage1_def upd_stage2_def upd_timeout_def
      timeInCurrentState_def LOADING_TIMEOUT_def println_def set_name_def get_name_def
      clear_def new_ProtocolManager_def Let_def)

theorem C10_no_commands_while_loading_witness:
  "loading_throughout grid3_cfg [override_during_upload] (grid3_uploading 0 0 []) \<and>
   run grid3_cfg [override_during_upload] (grid3_uploading 0 0 []) = Inr grid3_named_override \<and>
   override_pump_safety grid3_named_override = override_pump_safety (grid3_uploading 0 0 []) \<and>
   \<not> override_pump_safety grid3_named_override \<and>
   get_name (protocol_mgr grid3_named_override) = ''override_safety''"
proof -
  have l: "loading_program (grid3_uploading 0 0 [])"
    by (simp add: grid3_uploading_def FSM_fun_uploading__ent_def)
  have h1: "loading_throughout grid3_cfg [override_during_upload] (grid3_uploading 0 0 [])"
    using l by (simp add: grid3_upload_pass)
  have h2: "run grid3_cfg [override_during_upload] (grid3_uploading 0 0 []) = Inr grid3_named_override"
    by (simp add: grid3_upload_pass)
  have o: "\<not> override_pump_safety (grid3_uploading 0 0 [])"
    by (simp add: grid3_uploading_def FSM_fun_uploading__ent_def initial_globals_def)
  have nm: "get_name (protocol_mgr grid3_named_override) = ''override_safety''"
    by (simp add: grid3_named_override_def get_name_def)
  from C10_no_commands_while_loading[OF h1 h2] h1 h2 o nm show ?thesis by simp
qed

subsection \<open>A command between the end of an upload and its exit\<close>

lemmas upload_unfold =
  FSM_fun_uploading__upd_def FSM_fun_uploading__ent_def upd_stage0_def upd_stage1_def
  upd_stage2_def upd_timeout_def timeInCurrentState_def LOADING_TIMEOUT_def
  transitionTo_def println_def immediateTransitionTo_def fsm_exit_def
  set_name_def get_name_def get_N_lines_def clear_def

lemma grid3_boot_pass:
  "loop grid3_cfg \<lparr>t_now = 0, t_rx = [], t_bsc = NoFrame\<rparr> (initial_globals new_ProtocolManager) =
     Inr grid3_idle"
  by (simp add: loop_unfold initial_globals_def grid3_idle_def)

lemma grid3_upload_command_pass:
  "loop grid3_cfg \<lparr>t_now = 10, t_rx = [''upload''], t_bsc = NoFrame\<rparr> grid3_idle =
     Inr (grid3_idle
            \<lparr>loading_program := True, cmd_timer := Some 10, fsm_current := state_uploading,
             fsm_next := state_uploading, fsm_change_time := 10\<rparr>)"
  by (simp add: loop_unfold upload_unfold initial_globals_def new_ProtocolManager_def
      grid3_idle_def)

lemma grid3_name_pass:
  "loop grid3_cfg \<lparr>t_now = 20, t_rx = [''T''], t_bsc = NoFrame\<rparr>
     (grid3_idle
            \<lparr>loading_program := True, cmd_timer := Some 10, fsm_current := state_uploading,
             fsm_next := state_uploading, fsm_change_time := 10\<rparr>) =
     Inr grid3_named"
  by (simp add: loop_unfold upload_unfold initial_globals_def new_ProtocolManager_def
      grid3_idle_def grid3_named_def)

lemma grid3_capacity_pass:
  "loop grid3_cfg \<lparr>t_now = 30, t_rx = [''5001''], t_bsc = NoFrame\<rparr> grid3_named =
     Inr (grid3_named
            \<lparr>loading_program := False, promised_N_lines := 5001, fsm_next := state_off,
             fsm_change_time := 30, serial_out := [EchoName ''T'', ErrCapacity 5001 5000]\<rparr>)"
proof -
  have a: "atoi ''5001'' = 5001" by code_simp
  have m: "PROTOCOL_MAX_LINES grid3_cfg = 5000" by (simp add: grid3_cfg_def)
  show ?thesis
    by (simp add: loop_unfold upload_unfold initial_globals_def new_ProtocolManager_def
        grid3_idle_def grid3_named_def a m)
qed

lemma grid3_reupload_pass:
  "loop grid3_cfg \<lparr>t_now = 40, t_rx = [''upload''], t_bsc = NoFrame\<rparr>
     (grid3_named
            \<lparr>loading_program := False, promised_N_lines := 5001, fsm_next := state_off,
             fsm_change_time := 30, serial_out := [EchoName ''T'', ErrCapacity 5001 5000]\<rparr>) =
     Inr grid3_stuck"
  by (simp add: loop_unfold upload_unfold initial_globals_def new_ProtocolManager_def
      grid3_idle_def grid3_named_def grid3_stuck_def)

text \<open>
  C6. On the small grid an upload ends with the capacity error at 30 ms: the
  loading flag drops, so the command listener runs again, and the transition to
  Off is requested. The host sends \<^verbatim>\<open>upload\<close> on the next pass. The command
  listener runs before the state machine and requests Uploading, the state the
  machine is still in, so the exit function of the upload never runs: after the
  pass the machine is in Uploading with the loading flag clear, and
  \<open>prime_start\<close> has not been called.
\<close>

theorem C6_exit_skipped:
  "run grid3_cfg reupload_ticks (initial_globals new_ProtocolManager) = Inr grid3_stuck \<and>
   serial_out grid3_stuck = [EchoName ''T'', ErrCapacity 5001 5000] \<and>
   \<not> loading_program grid3_stuck \<and>
   fsm_current grid3_stuck = state_uploading \<and> fsm_next grid3_stuck = state_uploading \<and>
   prime_start_calls (protocol_mgr grid3_stuck) = 0"
proof -
  have "run grid3_cfg reupload_ticks (initial_globals new_ProtocolManager) = Inr grid3_stuck"
    by (simp add: reupload_ticks_def grid3_boot_pass grid3_upload_command_pass grid3_name_pass
        grid3_capacity_pass grid3_reupload_pass)
  moreover have "serial_out grid3_stuck = [EchoName ''T'', ErrCapacity 5001 5000] \<and>
      \<not> loading_program grid3_stuck \<and>
      fsm_current grid3_stuck = state_uploading \<and> fsm_next grid3_stuck = state_uploading \<and>
      prime_start_calls (protocol_mgr grid3_stuck) = 0"
    by (simp add: grid3_stuck_def grid3_named_def new_ProtocolManager_def)
  ultimately show ?thesis by blast
qed

subsection \<open>A pass of the loop during an upload\<close>

lemma safety_tail_fields [simp]:
  "loading_program (safety_pulses cfg now (safety_check s)) = loading_program s"
  "loading_stage (safety_pulses cfg now (safety_check s)) = loading_stage s"
  "loading_successful (safety_pulses cfg now (safety_check s)) = loading_successful s"
  "promised_N_lines (safety_pulses cfg now (safety_check s)) = promised_N_lines s"
  "protocol_mgr (safety_pulses cfg now (safety_check s)) = protocol_mgr s"
  "fsm_current (safety_pulses cfg now (safety_check s)) = fsm_current s"
  "fsm_next (safety_pulses cfg now (safety_check s)) = fsm_next s"
  "fsm_need_enter (safety_pulses cfg now (safety_check s)) = fsm_need_enter s"
  "fsm_change_time (safety_pulses cfg now (safety_check s)) = fsm_change_time s"
  "serial_out (safety_pulses cfg now (safety_check s)) = serial_out s"
  "sc_pending (safety_pulses cfg now (safety_check s)) = sc_pending s"
  "cmd_timer (safety_pulses cfg now (safety_check s)) = cmd_timer s"
  by (simp_all add: safety_pulses_def safety_check_def Let_def split: prod.splits)

lemma uploading_safety_tail [simp]:
  "uploading (safety_pulses cfg now (safety_check s)) = uploading s"
  by (simp add: uploading_def)

lemma loop_uploading:
  assumes "uploading st"
  shows "loop cfg inp st =
    (case FSM_fun_uploading__upd cfg (t_now inp) (t_bsc inp)
            (st\<lparr>sc_pending := sc_pending st @ t_rx inp\<rparr>) of
       Inl f \<Rightarrow> Inl f
     | Inr s \<Rightarrow> Inr (safety_pulses cfg (t_now inp) (safety_check s)))"
  using assms
  by (simp add: uploading_def loop_def process_commands_def fsm_update_def fsm_upd_def)

lemma process_commands_nothing:
  "sc_pending st = [] \<Longrightarrow> \<exists>t. process_commands cfg now st = Inr (st\<lparr>cmd_timer := t\<rparr>)"
proof (cases "loading_program st")
  case True
  then have "process_commands cfg now st = Inr (st\<lparr>cmd_timer := cmd_timer st\<rparr>)"
    by (simp add: process_commands_def)
  then show ?thesis by blast
next
  case False
  assume "sc_pending st = []"
  with False have "process_commands cfg now st =
      Inr (st\<lparr>cmd_timer := snd (every_n_millis now 10 (cmd_timer st))\<rparr>)"
    by (simp add: process_commands_def Let_def split: prod.splits)
  then show ?thesis by blast
qed

lemma dialogue_cases:
  assumes "xs @ rest = drop k [nm, c]"
  shows "(k = 0 \<and> xs = []) \<or> (k = 0 \<and> xs = [nm]) \<or> (k = 0 \<and> xs = [nm, c]) \<or>
         (k = 1 \<and> xs = []) \<or> (k = 1 \<and> xs = [c]) \<or> (2 \<le> k \<and> xs = [])"
proof (cases k)
  case 0
  with assms show ?thesis by (auto simp: append_eq_Cons_conv)
next
  case (Suc j)
  with assms show ?thesis by (cases j) (auto simp: append_eq_Cons_conv)
qed

text \<open>The text stages of one update: what is pending is the next part of the dialogue.\<close>

lemma stage01_orderly:
  assumes "loading_stage st = k" and "sc_pending st = xs" and "xs @ rest = drop k [nm, c]"
    and "\<not> over_capacity cfg c"
  shows "\<exists>s. upd_stage1 cfg now (upd_stage0 st) = Falls s \<and>
      loading_stage s = k + length xs \<and> sc_pending s = [] \<and>
      serial_out s = serial_out st @
        take (length xs) (drop k [EchoName nm, EchoCount (word_of_int (atoi c))]) \<and>
      promised_N_lines s =
        (if k < 2 \<and> 2 \<le> k + length xs then word_of_int (atoi c) else promised_N_lines st) \<and>
      protocol_mgr s = (if k = 0 \<and> xs \<noteq> [] then set_name nm (protocol_mgr st) else protocol_mgr st) \<and>
      uploading s = uploading st \<and> fsm_change_time s = fsm_change_time st"
  using dialogue_cases[OF assms(3)] assms(1,2,4)
  by (auto simp: upd_stage0_def upd_stage1_def Let_def println_def unat_promise over_capacity_def
      set_name_def get_name_def uploading_def)

lemma stage2_NoFrame: "upd_stage2 cfg now NoFrame s = Inr (Falls s)"
  by (simp add: upd_stage2_def)

lemma stage2_valid_frame:
  assumes "loading_stage s = 2" and "valid_frame cfg buf data_len"
    and "P_NULL_VAL < AXIS_MIN cfg" and "get_N_lines (protocol_mgr s) < PROTOCOL_MAX_LINES cfg"
  shows "\<exists>pl. upd_stage2 cfg now (Frame buf data_len) s =
      Inr (Falls (s\<lparr>bin_buf := buf,
                    protocol_mgr := (protocol_mgr s)\<lparr>program := program (protocol_mgr s) @ [pl]\<rparr>\<rparr>))"
proof -
  have f: "data_len \<le> MAX_POINTS_PER_LINE cfg + 2" and p: "0 < data_len"
    and g: "\<forall>i \<in> set [2..<data_len]. in_axis cfg (unpack_byte cfg (buf ! i))"
    using assms(2) by (simp_all add: valid_frame_def)
  have k: "0 < MAX_POINTS_PER_LINE cfg + 1 - (data_len - 2)" using f by arith
  have n: "get_N_lines (protocol_mgr s) \<noteq> PROTOCOL_MAX_LINES cfg" using assms(4) by simp
  have ax: "\<forall>q \<in> set (map (\<lambda>i. unpack_byte cfg (buf ! i)) [2..<data_len]). in_axis cfg q"
    using g by simp
  have "add_line cfg (parse_line cfg buf data_len) (protocol_mgr s) =
      Inr (True, (protocol_mgr s)\<lparr>program := program (protocol_mgr s) @
        [\<lparr>ptl_time = push_bit 8 (ucast (buf ! 0) :: 16 word) OR ucast (buf ! 1),
          packed = foldl (\<lambda>m p. set_bit_of cfg p m) (replicate (NUMEL_AXIS cfg) 0)
                     (map (\<lambda>i. unpack_byte cfg (buf ! i)) [2..<data_len])\<rparr>]\<rparr>)"
    unfolding parse_line_closed[OF f] by (rule add_line_appends[OF n ax assms(3) k])
  then show ?thesis
    using p assms(1) by (simp add: upd_stage2_def) blast
qed

lemma timeout_in_time:
  "unat (now - fsm_change_time s) \<le> LOADING_TIMEOUT \<Longrightarrow> upd_timeout now s = s"
  by (simp add: upd_timeout_def timeInCurrentState_def)

text \<open>One update of an orderly upload, and one pass of the loop around it.\<close>

lemma upd_orderly:
  assumes "uploading st" and "loading_stage st = k" and "k \<le> 2" and "sc_pending st = xs"
    and "xs @ rest = drop k [nm, c]" and "\<not> over_capacity cfg c"
    and "unat (now - fsm_change_time st) \<le> LOADING_TIMEOUT"
    and "frame_in_order cfg (k + length xs) b"
    and "P_NULL_VAL < AXIS_MIN cfg"
    and "b \<noteq> NoFrame \<longrightarrow> get_N_lines (protocol_mgr st) < PROTOCOL_MAX_LINES cfg"
  shows "\<exists>s. FSM_fun_uploading__upd cfg now b st = Inr s \<and> uploading s \<and>
      loading_stage s = k + length xs \<and> sc_pending s = [] \<and>
      fsm_change_time s = fsm_change_time st \<and>
      get_N_lines (protocol_mgr s) = get_N_lines (protocol_mgr st) + (if b = NoFrame then 0 else 1) \<and>
      serial_out s = serial_out st @
        take (length xs) (drop k [EchoName nm, EchoCount (word_of_int (atoi c))]) \<and>
      promised_N_lines s =
        (if k < 2 \<and> 2 \<le> k + length xs then word_of_int (atoi c) else promised_N_lines st) \<and>
      get_name (protocol_mgr s) = (if k = 0 \<and> xs \<noteq> [] then nm else get_name (protocol_mgr st)) \<and>
      prime_start_calls (protocol_mgr s) = prime_start_calls (protocol_mgr st)"
proof -
  from stage01_orderly[OF assms(2,4,5,6), of now]
  obtain s1 where s1: "upd_stage1 cfg now (upd_stage0 st) = Falls s1"
      "loading_stage s1 = k + length xs" "sc_pending s1 = []"
      "serial_out s1 = serial_out st @
        take (length xs) (drop k [EchoName nm, EchoCount (word_of_int (atoi c))])"
      "promised_N_lines s1 =
        (if k < 2 \<and> 2 \<le> k + length xs then word_of_int (atoi c) else promised_N_lines st)"
      "protocol_mgr s1 = (if k = 0 \<and> xs \<noteq> [] then set_name nm (protocol_mgr st) else protocol_mgr st)"
      "uploading s1 = uploading st" "fsm_change_time s1 = fsm_change_time st"
    by blast
  have le: "k + length xs \<le> 2"
    using dialogue_cases[OF assms(5)] assms(3) by auto
  have nm1: "get_name (protocol_mgr s1) = (if k = 0 \<and> xs \<noteq> [] then nm else get_name (protocol_mgr st))"
    and n1: "get_N_lines (protocol_mgr s1) = get_N_lines (protocol_mgr st)"
    and p1: "prime_start_calls (protocol_mgr s1) = prime_start_calls (protocol_mgr st)"
    using s1(6) by (simp_all add: set_name_def get_name_def get_N_lines_def)
  have t1: "unat (now - fsm_change_time s1) \<le> LOADING_TIMEOUT" using assms(7) s1(8) by simp
  show ?thesis
  proof (cases b)
    case NoFrame
    have "FSM_fun_uploading__upd cfg now b st = Inr s1"
      using s1(1) NoFrame t1 by (simp add: FSM_fun_uploading__upd_def stage2_NoFrame timeout_in_time)
    then show ?thesis
      using s1 nm1 n1 p1 assms(1) NoFrame by simp
  next
    case Overrun
    with assms(8) show ?thesis by (simp add: frame_in_order_def)
  next
    case (Frame buf data_len)
    with assms(8) have two: "2 \<le> k + length xs" and v: "valid_frame cfg buf data_len"
      by (simp_all add: frame_in_order_def)
    have st2: "loading_stage s1 = 2" using two le s1(2) by simp
    have room: "get_N_lines (protocol_mgr s1) < PROTOCOL_MAX_LINES cfg"
      using assms(10) Frame n1 by simp
    from stage2_valid_frame[OF st2 v assms(9) room, of now]
    obtain pl where pl: "upd_stage2 cfg now (Frame buf data_len) s1 =
      Inr (Falls (s1\<lparr>bin_buf := buf,
                    protocol_mgr := (protocol_mgr s1)\<lparr>program := program (protocol_mgr s1) @ [pl]\<rparr>\<rparr>))"
      by blast
    let ?s2 = "s1\<lparr>bin_buf := buf,
                  protocol_mgr := (protocol_mgr s1)\<lparr>program := program (protocol_mgr s1) @ [pl]\<rparr>\<rparr>"
    have t2: "unat (now - fsm_change_time ?s2) \<le> LOADING_TIMEOUT" using t1 by simp
    have "FSM_fun_uploading__upd cfg now b st = Inr ?s2"
      using s1(1) Frame pl timeout_in_time[OF t2] by (simp add: FSM_fun_uploading__upd_def)
    moreover have "uploading ?s2" using s1(7) assms(1) by (simp add: uploading_def)
    moreover have "get_N_lines (protocol_mgr ?s2) = get_N_lines (protocol_mgr st) + 1"
      using n1 by (simp add: get_N_lines_def)
    moreover have "get_name (protocol_mgr ?s2) = (if k = 0 \<and> xs \<noteq> [] then nm else get_name (protocol_mgr st))"
      using nm1 by (simp add: get_name_def)
    moreover have "prime_start_calls (protocol_mgr ?s2) = prime_start_calls (protocol_mgr st)"
      using p1 by simp
    ultimately show ?thesis
      using s1(2,3,4,5,8) Frame by (intro exI[of _ ?s2]) simp
  qed
qed

lemma pass_orderly:
  assumes "uploading st" and "loading_stage st = k" and "k \<le> 2" and "sc_pending st = []"
    and "t_rx inp @ rest = drop k [nm, c]" and "\<not> over_capacity cfg c"
    and "unat (t_now inp - fsm_change_time st) \<le> LOADING_TIMEOUT"
    and "frame_in_order cfg (k + length (t_rx inp)) (t_bsc inp)"
    and "P_NULL_VAL < AXIS_MIN cfg"
    and "t_bsc inp \<noteq> NoFrame \<longrightarrow> get_N_lines (protocol_mgr st) < PROTOCOL_MAX_LINES cfg"
  shows "\<exists>s. loop cfg inp st = Inr s \<and> uploading s \<and>
      loading_stage s = k + length (t_rx inp) \<and> sc_pending s = [] \<and>
      fsm_change_time s = fsm_change_time st \<and>
      get_N_lines (protocol_mgr s) =
        get_N_lines (protocol_mgr st) + (if t_bsc inp = NoFrame then 0 else 1) \<and>
      serial_out s = serial_out st @
        take (length (t_rx inp)) (drop k [EchoName nm, EchoCount (word_of_int (atoi c))]) \<and>
      promised_N_lines s =
        (if k < 2 \<and> 2 \<le> k + length (t_rx inp) then word_of_int (atoi c) else promised_N_lines st) \<and>
      get_name (protocol_mgr s) =
        (if k = 0 \<and> t_rx inp \<noteq> [] then nm else get_name (protocol_mgr st)) \<and>
      prime_start_calls (protocol_mgr s) = prime_start_calls (protocol_mgr st)"
proof -
  let ?st = "st\<lparr>sc_pending := sc_pending st @ t_rx inp\<rparr>"
  have a: "uploading ?st" "loading_stage ?st = k" "sc_pending ?st = t_rx inp"
      "unat (t_now inp - fsm_change_time ?st) \<le> LOADING_TIMEOUT"
      "t_bsc inp \<noteq> NoFrame \<longrightarrow> get_N_lines (protocol_mgr ?st) < PROTOCOL_MAX_LINES cfg"
    using assms(1,2,4,7,10) by (simp_all add: uploading_def)
  from upd_orderly[OF a(1,2) assms(3) a(3) assms(5,6) a(4) assms(8,9) a(5)]
  obtain s where s: "FSM_fun_uploading__upd cfg (t_now inp) (t_bsc inp) ?st = Inr s" "uploading s"
      "loading_stage s = k + length (t_rx inp)" "sc_pending s = []"
      "fsm_change_time s = fsm_change_time ?st"
      "get_N_lines (protocol_mgr s) =
         get_N_lines (protocol_mgr ?st) + (if t_bsc inp = NoFrame then 0 else 1)"
      "serial_out s = serial_out ?st @
        take (length (t_rx inp)) (drop k [EchoName nm, EchoCount (word_of_int (atoi c))])"
      "promised_N_lines s =
        (if k < 2 \<and> 2 \<le> k + length (t_rx inp) then word_of_int (atoi c) else promised_N_lines ?st)"
      "get_name (protocol_mgr s) =
        (if k = 0 \<and> t_rx inp \<noteq> [] then nm else get_name (protocol_mgr ?st))"
      "prime_start_calls (protocol_mgr s) = prime_start_calls (protocol_mgr ?st)"
    by blast
  have "loop cfg inp st = Inr (safety_pulses cfg (t_now inp) (safety_check s))"
    using loop_uploading[OF assms(1), of cfg inp] s(1) by simp
  then show ?thesis
    using s(2-) by (intro exI[of _ "safety_pulses cfg (t_now inp) (safety_check s)"]) simp
qed

text \<open>The passes of an orderly upload, up to the end-of-program frame.\<close>

lemma run_append:
  "run cfg (xs @ ys) st = (case run cfg xs st of Inl f \<Rightarrow> Inl f | Inr s \<Rightarrow> run cfg ys s)"
  by (induction xs arbitrary: st) (auto split: sum.splits)

lemma frames_in_Cons:
  "frames_in (inp # inps) = (if t_bsc inp = NoFrame then 0 else 1) + frames_in inps"
  by (simp add: frames_in_def)

lemma run_orderly:
  assumes "P_NULL_VAL < AXIS_MIN cfg" and "\<not> over_capacity cfg c"
  shows "uploading st \<Longrightarrow> loading_stage st = k \<Longrightarrow> k \<le> 2 \<Longrightarrow> sc_pending st = [] \<Longrightarrow>
    fsm_change_time st = t0 \<Longrightarrow> orderly cfg t0 k passes \<Longrightarrow>
    concat (map t_rx passes) = drop k [nm, c] \<Longrightarrow>
    get_N_lines (protocol_mgr st) + frames_in passes \<le> PROTOCOL_MAX_LINES cfg \<Longrightarrow>
    \<exists>s. run cfg passes st = Inr s \<and> uploading s \<and> loading_stage s = 2 \<and> sc_pending s = [] \<and>
      fsm_change_time s = t0 \<and>
      get_N_lines (protocol_mgr s) = get_N_lines (protocol_mgr st) + frames_in passes \<and>
      serial_out s = serial_out st @ drop k [EchoName nm, EchoCount (word_of_int (atoi c))] \<and>
      promised_N_lines s = (if k < 2 then word_of_int (atoi c) else promised_N_lines st) \<and>
      get_name (protocol_mgr s) = (if k = 0 then nm else get_name (protocol_mgr st)) \<and>
      prime_start_calls (protocol_mgr s) = prime_start_calls (protocol_mgr st)"
proof (induction passes arbitrary: st k)
  case Nil
  from Nil.prems(7) have "2 \<le> k" by (cases k; cases "k - 1") auto
  with Nil.prems(3) have k: "k = 2" by simp
  show ?case using Nil.prems(1,2,4,5) k by (simp add: frames_in_def)
next
  case (Cons inp inps)
  let ?n = "length (t_rx inp)"
  let ?E = "[EchoName nm, EchoCount (word_of_int (atoi c))]"
  have tx: "t_rx inp @ concat (map t_rx inps) = drop k [nm, c]"
    using Cons.prems(7) by simp
  have rest: "concat (map t_rx inps) = drop (k + ?n) [nm, c]"
  proof -
    have "concat (map t_rx inps) = drop ?n (drop k [nm, c])"
      using tx by (metis append_eq_conv_conj)
    then show ?thesis by (simp add: add.commute)
  qed
  have le: "k + ?n \<le> 2"
    using dialogue_cases[OF tx] Cons.prems(3) by auto
  have it: "unat (t_now inp - fsm_change_time st) \<le> LOADING_TIMEOUT"
    and fo: "frame_in_order cfg (k + ?n) (t_bsc inp)"
    and oi: "orderly cfg t0 (k + ?n) inps"
    using Cons.prems(5,6) by simp_all
  have room: "t_bsc inp \<noteq> NoFrame \<longrightarrow> get_N_lines (protocol_mgr st) < PROTOCOL_MAX_LINES cfg"
    using Cons.prems(8) by (auto simp: frames_in_Cons)
  from pass_orderly[OF Cons.prems(1,2,3,4) tx assms(2) it fo assms(1) room]
  obtain s where s: "loop cfg inp st = Inr s" "uploading s"
      "loading_stage s = k + ?n" "sc_pending s = []"
      "fsm_change_time s = fsm_change_time st"
      "get_N_lines (protocol_mgr s) =
        get_N_lines (protocol_mgr st) + (if t_bsc inp = NoFrame then 0 else 1)"
      "serial_out s = serial_out st @ take ?n (drop k ?E)"
      "promised_N_lines s =
        (if k < 2 \<and> 2 \<le> k + ?n then word_of_int (atoi c) else promised_N_lines st)"
      "get_name (protocol_mgr s) =
        (if k = 0 \<and> t_rx inp \<noteq> [] then nm else get_name (protocol_mgr st))"
      "prime_start_calls (protocol_mgr s) = prime_start_calls (protocol_mgr st)"
    by blast
  have ct: "fsm_change_time s = t0" using s(5) Cons.prems(5) by simp
  have rm: "get_N_lines (protocol_mgr s) + frames_in inps \<le> PROTOCOL_MAX_LINES cfg"
    using Cons.prems(8) s(6) by (simp add: frames_in_Cons)
  from Cons.IH[OF s(2,3) le s(4) ct oi rest rm]
  obtain s' where s': "run cfg inps s = Inr s'" "uploading s'" "loading_stage s' = 2"
      "sc_pending s' = []" "fsm_change_time s' = t0"
      "get_N_lines (protocol_mgr s') = get_N_lines (protocol_mgr s) + frames_in inps"
      "serial_out s' = serial_out s @ drop (k + ?n) ?E"
      "promised_N_lines s' = (if k + ?n < 2 then word_of_int (atoi c) else promised_N_lines s)"
      "get_name (protocol_mgr s') = (if k + ?n = 0 then nm else get_name (protocol_mgr s))"
      "prime_start_calls (protocol_mgr s') = prime_start_calls (protocol_mgr s)"
    by blast
  have r: "run cfg (inp # inps) st = Inr s'" using s(1) s'(1) by simp
  have n: "get_N_lines (protocol_mgr s') = get_N_lines (protocol_mgr st) + frames_in (inp # inps)"
    using s'(6) s(6) by (simp add: frames_in_Cons)
  have so: "serial_out s' = serial_out st @ drop k ?E"
  proof -
    have "take ?n (drop k ?E) @ drop (k + ?n) ?E = take ?n (drop k ?E) @ drop ?n (drop k ?E)"
      by (simp add: add.commute)
    also have "\<dots> = drop k ?E" by (rule append_take_drop_id)
    finally show ?thesis using s'(7) s(7) by simp
  qed
  have pr: "promised_N_lines s' = (if k < 2 then word_of_int (atoi c) else promised_N_lines st)"
    using s'(8) s(8) le by auto
  have nm: "get_name (protocol_mgr s') = (if k = 0 then nm else get_name (protocol_mgr st))"
    using s'(9) s(9) by auto
  have ps: "prime_start_calls (protocol_mgr s') = prime_start_calls (protocol_mgr st)"
    using s'(10) s(10) by simp
  show ?case
    using r s'(2,3,4,5) n so pr nm ps by blast
qed

text \<open>The pass that brings the end-of-program frame.\<close>

lemma eop_pass:
  assumes "uploading st" and "loading_stage st = 2" and "sc_pending st = []"
    and "t_rx inp = []" and "is_EOP (t_bsc inp)"
  shows "\<exists>s. loop cfg inp st = Inr s \<and> fsm_current s = state_uploading \<and>
      fsm_next s = state_off \<and> \<not> fsm_need_enter s \<and> \<not> loading_program s \<and>
      sc_pending s = [] \<and> protocol_mgr s = protocol_mgr st \<and>
      loading_successful s = (get_N_lines (protocol_mgr st) = unat (promised_N_lines st)) \<and>
      serial_out s = serial_out st @
        [if get_N_lines (protocol_mgr st) = unat (promised_N_lines st) then Success
         else ErrCountMismatch (promised_N_lines st) (get_N_lines (protocol_mgr st))]"
proof -
  from assms(5) obtain buf where b: "t_bsc inp = Frame buf 0"
    by (cases "t_bsc inp") (auto simp: is_EOP_def)
  let ?st = "st\<lparr>sc_pending := sc_pending st @ t_rx inp\<rparr>"
  let ?ok = "get_N_lines (protocol_mgr st) = unat (promised_N_lines st)"
  let ?s = "st\<lparr>bin_buf := buf,
               serial_out := serial_out st @
                 [if ?ok then Success
                  else ErrCountMismatch (promised_N_lines st) (get_N_lines (protocol_mgr st))],
               loading_successful := ?ok, loading_program := False,
               fsm_next := state_off, fsm_change_time := t_now inp\<rparr>"
  have "FSM_fun_uploading__upd cfg (t_now inp) (t_bsc inp) ?st = Inr ?s"
    using assms(1,2,3,4) b
    by (simp add: FSM_fun_uploading__upd_def upd_stage0_def upd_stage1_def upd_stage2_def
        println_def transitionTo_def uploading_def)
  then have "loop cfg inp st = Inr (safety_pulses cfg (t_now inp) (safety_check ?s))"
    using loop_uploading[OF assms(1), of cfg inp] by simp
  then show ?thesis
    using assms(1,3)
    by (intro exI[of _ "safety_pulses cfg (t_now inp) (safety_check ?s)"])
       (simp add: uploading_def)
qed

text \<open>
  The pass after the end of an upload, when it brings no command: the state
  machine runs the exit function and enters Off.
\<close>

lemma exit_pass:
  assumes "config_ok cfg" and "fsm_current st = state_uploading" and "fsm_next st = state_off"
    and "\<not> fsm_need_enter st" and "sc_pending st = []" and "t_rx inp = []"
  shows "\<exists>s. loop cfg inp st = Inr s \<and> fsm_current s = state_off \<and> fsm_next s = state_off \<and>
      serial_out s = serial_out st \<and> loading_program s = loading_program st \<and>
      protocol_mgr s =
        (if loading_successful st then prime_start (protocol_mgr st)
         else fail_safe cfg (protocol_mgr st))"
proof -
  let ?st = "st\<lparr>sc_pending := sc_pending st @ t_rx inp\<rparr>"
  have e: "?st = st" using assms(6) by simp
  from process_commands_nothing[OF assms(5), of cfg "t_now inp"]
  obtain t where t: "process_commands cfg (t_now inp) st = Inr (st\<lparr>cmd_timer := t\<rparr>)"
    by blast
  let ?s1 = "st\<lparr>cmd_timer := t\<rparr>"
  let ?pm = "if loading_successful st then prime_start (protocol_mgr st)
             else fail_safe cfg (protocol_mgr st)"
  have x: "FSM_fun_uploading__ext cfg ?s1 = Inr (?s1\<lparr>protocol_mgr := ?pm\<rparr>)"
  proof (cases "loading_successful st")
    case True
    then show ?thesis by (simp add: ext_succeeded)
  next
    case False
    then have "\<not> loading_successful ?s1" by simp
    from ext_failed[OF assms(1) this] False show ?thesis by (simp add: fail_safe_def)
  qed
  let ?s2 = "FSM_fun_off__ent (?s1\<lparr>protocol_mgr := ?pm, fsm_current := state_off,
                                   fsm_next := state_off\<rparr>)"
  have u: "fsm_update cfg (t_now inp) (t_bsc inp) ?s1 = Inr ?s2"
    using assms(2,3,4) x
    by (simp add: fsm_update_def immediateTransitionTo_def fsm_exit_def fsm_enter_def
        fsm_upd_def FSM_fun_off__ent_def)
  have "loop cfg inp st = Inr (safety_pulses cfg (t_now inp) (safety_check ?s2))"
    unfolding loop_def e t using u by simp
  then show ?thesis
    by (intro exI[of _ "safety_pulses cfg (t_now inp) (safety_check ?s2)"])
       (simp add: FSM_fun_off__ent_def)
qed

text \<open>The pass that brings the command \<^verbatim>\<open>upload\<close> in normal operation.\<close>

lemma command_pass:
  assumes "idle st" and "upload_command inp st"
  shows "\<exists>s. loop cfg inp st = Inr s \<and> uploading s \<and> loading_stage s = 0 \<and>
      sc_pending s = [] \<and> fsm_change_time s = t_now inp \<and>
      program (protocol_mgr s) = [] \<and> serial_out s = serial_out st \<and>
      prime_start_calls (protocol_mgr s) = prime_start_calls (protocol_mgr st)"
proof -
  let ?now = "t_now inp"
  let ?st = "st\<lparr>sc_pending := sc_pending st @ t_rx inp\<rparr>"
  let ?s1 = "st\<lparr>sc_pending := [], cmd_timer := Some ?now, fsm_next := state_uploading,
                fsm_change_time := ?now\<rparr>"
  have rdy: "every_n_millis ?now 10 (cmd_timer st) = (True, Some ?now)"
    using assms(2) by (auto simp: upload_command_def every_n_millis_def Let_def split: if_splits)
  have pc: "process_commands cfg ?now ?st = Inr ?s1"
    using assms rdy
    by (simp add: process_commands_def idle_def upload_command_def dispatch_def transitionTo_def)
  let ?s2 = "FSM_fun_uploading__ent
               (st\<lparr>sc_pending := [], cmd_timer := Some ?now, fsm_change_time := ?now,
                   fsm_current := state_uploading, fsm_next := state_uploading\<rparr>)"
  have ex: "fsm_exit cfg (fsm_current st) ?s1 = Inr ?s1"
    using assms(1) by (cases "fsm_current st") (simp_all add: fsm_exit_def idle_def)
  have tr: "immediateTransitionTo cfg state_uploading ?s1 = Inr ?s2"
    using ex by (simp add: immediateTransitionTo_def fsm_enter_def)
  have up: "FSM_fun_uploading__upd cfg ?now (t_bsc inp) ?s2 = Inr ?s2"
    by (simp add: FSM_fun_uploading__upd_def upd_stage0_def upd_stage1_def upd_stage2_def
        upd_timeout_def timeInCurrentState_def FSM_fun_uploading__ent_def)
  have "fsm_update cfg ?now (t_bsc inp) ?s1 = Inr ?s2"
    using assms(1) tr up
    by (simp add: fsm_update_def idle_def fsm_upd_def FSM_fun_uploading__ent_def)
  then have "loop cfg inp st = Inr (safety_pulses cfg ?now (safety_check ?s2))"
    unfolding loop_def pc by simp
  then show ?thesis
    using assms(1)
    by (intro exI[of _ "safety_pulses cfg ?now (safety_check ?s2)"])
       (simp add: uploading_def idle_def FSM_fun_uploading__ent_def clear_def)
qed

subsection \<open>An orderly upload from the command to the report\<close>

lemma unat_of_nat_promise: "N < 65536 \<Longrightarrow> unat (word_of_int (int N) :: 16 word) = N"
  by (simp add: unat_of_nat)

lemma promise_fits:
  "atoi c = int N \<Longrightarrow> N \<le> PROTOCOL_MAX_LINES cfg \<Longrightarrow> N < 65536 \<Longrightarrow> \<not> over_capacity cfg c"
  by (simp add: over_capacity_def)

lemma run_to_EOP:
  assumes "P_NULL_VAL < AXIS_MIN cfg"
    and "idle st" and "upload_command p0 st"
    and "atoi c = int N" and "N \<le> PROTOCOL_MAX_LINES cfg" and "N < 65536"
    and "orderly cfg (t_now p0) 0 passes"
    and "concat (map t_rx passes) = [nm, c]"
    and "frames_in passes \<le> N"
    and "t_rx eop = []" and "is_EOP (t_bsc eop)"
  shows "\<exists>s. run cfg (p0 # passes @ [eop]) st = Inr s \<and> fsm_current s = state_uploading \<and>
      fsm_next s = state_off \<and> \<not> fsm_need_enter s \<and> \<not> loading_program s \<and>
      sc_pending s = [] \<and>
      get_N_lines (protocol_mgr s) = frames_in passes \<and> get_name (protocol_mgr s) = nm \<and>
      loading_successful s = (frames_in passes = N) \<and>
      serial_out s = serial_out st @
        [EchoName nm, EchoCount (word_of_nat N),
         if frames_in passes = N then Success
         else ErrCountMismatch (word_of_nat N) (frames_in passes)]"
proof -
  from command_pass[OF assms(2,3), of cfg]
  obtain s0 where s0: "loop cfg p0 st = Inr s0" "uploading s0" "loading_stage s0 = 0"
      "sc_pending s0 = []" "fsm_change_time s0 = t_now p0"
      "program (protocol_mgr s0) = []" "serial_out s0 = serial_out st"
    by blast
  have n0: "get_N_lines (protocol_mgr s0) = 0" using s0(6) by (simp add: get_N_lines_def)
  have room: "get_N_lines (protocol_mgr s0) + frames_in passes \<le> PROTOCOL_MAX_LINES cfg"
    using n0 assms(5,9) by simp
  have tx: "concat (map t_rx passes) = drop 0 [nm, c]" using assms(8) by simp
  from run_orderly[OF assms(1) promise_fits[OF assms(4,5,6)] s0(2,3) _ s0(4,5) assms(7) tx room]
  obtain s where s: "run cfg passes s0 = Inr s" "uploading s" "loading_stage s = 2"
      "sc_pending s = []"
      "get_N_lines (protocol_mgr s) = get_N_lines (protocol_mgr s0) + frames_in passes"
      "serial_out s = serial_out s0 @ drop 0 [EchoName nm, EchoCount (word_of_int (atoi c))]"
      "promised_N_lines s = (if (0 :: nat) < 2 then word_of_int (atoi c) else promised_N_lines s0)"
      "get_name (protocol_mgr s) = (if (0 :: nat) = 0 then nm else get_name (protocol_mgr s0))"
    by auto
  have pr: "promised_N_lines s = word_of_nat N" using s(7) assms(4) by simp
  have up: "unat (promised_N_lines s) = N"
    using pr unat_of_nat_promise[OF assms(6)] by simp
  have ln: "get_N_lines (protocol_mgr s) = frames_in passes" using s(5) n0 by simp
  from eop_pass[OF s(2,3,4) assms(10,11), of cfg]
  obtain s' where s': "loop cfg eop s = Inr s'" "fsm_current s' = state_uploading"
      "fsm_next s' = state_off" "\<not> fsm_need_enter s'" "\<not> loading_program s'"
      "sc_pending s' = []" "protocol_mgr s' = protocol_mgr s"
      "loading_successful s' = (get_N_lines (protocol_mgr s) = unat (promised_N_lines s))"
      "serial_out s' = serial_out s @
        [if get_N_lines (protocol_mgr s) = unat (promised_N_lines s) then Success
         else ErrCountMismatch (promised_N_lines s) (get_N_lines (protocol_mgr s))]"
    by blast
  have r: "run cfg (p0 # passes @ [eop]) st = Inr s'"
    using s0(1) s(1) s'(1) by (simp add: run_append)
  have so: "serial_out s' = serial_out st @
        [EchoName nm, EchoCount (word_of_nat N),
         if frames_in passes = N then Success
         else ErrCountMismatch (word_of_nat N) (frames_in passes)]"
    using s'(9) s(6) s0(7) assms(4) ln up pr by simp
  have ls: "loading_successful s' = (frames_in passes = N)" using s'(8) ln up by simp
  have "get_N_lines (protocol_mgr s') = frames_in passes" using s'(7) ln by simp
  moreover have "get_name (protocol_mgr s') = nm" using s'(7) s(8) by simp
  ultimately show ?thesis
    using r s'(2,3,4,5,6) so ls by blast
qed

text \<open>A valid frame that arrives after the deadline is stored, then the time-out ends the upload.\<close>

lemma late_frame_pass:
  assumes "uploading st" and "loading_stage st = 2" and "sc_pending st = []"
    and "t_rx inp = []" and "t_bsc inp = Frame buf data_len" and "valid_frame cfg buf data_len"
    and "P_NULL_VAL < AXIS_MIN cfg" and "get_N_lines (protocol_mgr st) < PROTOCOL_MAX_LINES cfg"
    and "LOADING_TIMEOUT < unat (t_now inp - fsm_change_time st)"
  shows "\<exists>s. loop cfg inp st = Inr s \<and> fsm_current s = state_uploading \<and>
      fsm_next s = state_off \<and> \<not> fsm_need_enter s \<and> \<not> loading_program s \<and>
      \<not> loading_successful s \<and> sc_pending s = [] \<and>
      serial_out s = serial_out st @ [ErrTimeout] \<and>
      get_N_lines (protocol_mgr s) = get_N_lines (protocol_mgr st) + 1"
proof -
  let ?st = "st\<lparr>sc_pending := sc_pending st @ t_rx inp\<rparr>"
  have e: "?st = st" using assms(4) by simp
  from stage2_valid_frame[OF assms(2,6,7,8), of "t_now inp"]
  obtain pl where pl: "upd_stage2 cfg (t_now inp) (Frame buf data_len) st =
      Inr (Falls (st\<lparr>bin_buf := buf,
                    protocol_mgr := (protocol_mgr st)\<lparr>program := program (protocol_mgr st) @ [pl]\<rparr>\<rparr>))"
    by blast
  let ?s2 = "st\<lparr>bin_buf := buf,
                protocol_mgr := (protocol_mgr st)\<lparr>program := program (protocol_mgr st) @ [pl]\<rparr>\<rparr>"
  let ?s = "transitionTo (t_now inp) state_off ((println ErrTimeout ?s2)\<lparr>loading_program := False\<rparr>)"
  have "FSM_fun_uploading__upd cfg (t_now inp) (t_bsc inp) ?st = Inr ?s"
    unfolding e using assms(2,5,9) pl
    by (simp add: FSM_fun_uploading__upd_def upd_stage0_def upd_stage1_def upd_timeout_def
        timeInCurrentState_def)
  then have "loop cfg inp st = Inr (safety_pulses cfg (t_now inp) (safety_check ?s))"
    using loop_uploading[OF assms(1), of cfg inp] by simp
  then show ?thesis
    using assms(1,3)
    by (intro exI[of _ "safety_pulses cfg (t_now inp) (safety_check ?s)"])
       (simp add: uploading_def transitionTo_def println_def get_N_lines_def)
qed

text \<open>
  C7. In normal operation the host sends \<^verbatim>\<open>upload\<close>, then the name and a line
  count \<open>N\<close> of at most the capacity, on any passes of the loop, and exactly \<open>N\<close>
  valid frames, none before the pass that brings the line count and with idle
  passes in between as they come; every one of these passes lies within the
  deadline of 4000 ms counted from the command. When the zero-length
  end-of-program frame follows, the upload echoes the name and the count,
  reports success, and the program holds \<open>N\<close> lines under the given name.
\<close>

theorem C7_upload_succeeds:
  assumes "P_NULL_VAL < AXIS_MIN cfg"
    and "idle st" and "upload_command p0 st"
    and "atoi c = int N" and "N \<le> PROTOCOL_MAX_LINES cfg" and "N < 65536"
    and "orderly cfg (t_now p0) 0 passes"
    and "concat (map t_rx passes) = [nm, c]"
    and "frames_in passes = N"
    and "t_rx eop = []" and "is_EOP (t_bsc eop)"
  shows "\<exists>st'. run cfg (p0 # passes @ [eop]) st = Inr st' \<and>
           serial_out st' = serial_out st @ [EchoName nm, EchoCount (word_of_nat N), Success] \<and>
           loading_successful st' \<and> \<not> loading_program st' \<and> fsm_next st' = state_off \<and>
           get_N_lines (protocol_mgr st') = N \<and> get_name (protocol_mgr st') = nm"
proof -
  have le: "frames_in passes \<le> N" using assms(9) by simp
  from run_to_EOP[OF assms(1,2,3,4,5,6,7,8) le assms(10,11)]
  obtain s where s: "run cfg (p0 # passes @ [eop]) st = Inr s"
      "fsm_next s = state_off" "\<not> loading_program s"
      "get_N_lines (protocol_mgr s) = frames_in passes" "get_name (protocol_mgr s) = nm"
      "loading_successful s = (frames_in passes = N)"
      "serial_out s = serial_out st @
        [EchoName nm, EchoCount (word_of_nat N),
         if frames_in passes = N then Success
         else ErrCountMismatch (word_of_nat N) (frames_in passes)]"
    by blast
  show ?thesis
    using s assms(9) by (intro exI[of _ s]) simp
qed

text \<open>
  C3. In normal operation the host sends \<^verbatim>\<open>upload\<close>, then the name and a line
  count \<open>N\<close> of at least 1 and at most the capacity, and only \<open>N - 1\<close> valid
  frames, every pass within the deadline of 4000 ms counted from the command.
  When the end-of-program frame follows, the upload reports the count mismatch.
  When the next pass of the loop brings no command, the state machine runs the
  exit function on it and enters Off, and the program is then exactly the
  fail-safe one: the name "All valves open" and a single line of 1000 ms in
  which the bit of every valve is set.
\<close>

theorem C3_count_mismatch_failsafe:
  assumes "config_ok cfg"
    and "idle st" and "upload_command p0 st"
    and "atoi c = int N" and "1 \<le> N" and "N \<le> PROTOCOL_MAX_LINES cfg" and "N < 65536"
    and "orderly cfg (t_now p0) 0 passes"
    and "concat (map t_rx passes) = [nm, c]"
    and "frames_in passes = N - 1"
    and "t_rx eop = []" and "is_EOP (t_bsc eop)" and "t_rx nxt = []"
  shows "\<exists>st1 st'. run cfg (p0 # passes @ [eop]) st = Inr st1 \<and>
           serial_out st1 = serial_out st @
             [EchoName nm, EchoCount (word_of_nat N), ErrCountMismatch (word_of_nat N) (N - 1)] \<and>
           \<not> loading_program st1 \<and>
           loop cfg nxt st1 = Inr st' \<and>
           serial_out st' = serial_out st1 \<and>
           fsm_current st' = state_off \<and> \<not> loading_program st' \<and>
           get_name (protocol_mgr st') = ''All valves open'' \<and>
           program (protocol_mgr st') = [\<lparr>ptl_time = 1000, packed = all_valves_packed cfg\<rparr>] \<and>
           (\<forall>v \<in> set [1..<Suc (N_VALVES cfg)].
              bit (all_valves_packed cfg ! nat (py (valve2p cfg v) - AXIS_MIN cfg))
                  (nat (px (valve2p cfg v) - AXIS_MIN cfg)))"
proof -
  have nn: "P_NULL_VAL < AXIS_MIN cfg" using assms(1) by (simp add: config_ok_def)
  have le: "frames_in passes \<le> N" using assms(10) by simp
  have ne: "frames_in passes \<noteq> N" using assms(5,10) by simp
  from run_to_EOP[OF nn assms(2,3,4,6,7,8,9) le assms(11,12)]
  obtain s where s: "run cfg (p0 # passes @ [eop]) st = Inr s"
      "fsm_current s = state_uploading" "fsm_next s = state_off" "\<not> fsm_need_enter s"
      "\<not> loading_program s" "sc_pending s = []"
      "loading_successful s = (frames_in passes = N)"
      "serial_out s = serial_out st @
        [EchoName nm, EchoCount (word_of_nat N),
         if frames_in passes = N then Success
         else ErrCountMismatch (word_of_nat N) (frames_in passes)]"
    by blast
  have so: "serial_out s = serial_out st @
             [EchoName nm, EchoCount (word_of_nat N), ErrCountMismatch (word_of_nat N) (N - 1)]"
    using s(8) ne assms(10) by simp
  have nl: "\<not> loading_successful s" using s(7) ne by simp
  from exit_pass[OF assms(1) s(2,3,4,6) assms(13)]
  obtain s' where s': "loop cfg nxt s = Inr s'" "fsm_current s' = state_off"
      "serial_out s' = serial_out s" "loading_program s' = loading_program s"
      "protocol_mgr s' =
        (if loading_successful s then prime_start (protocol_mgr s)
         else fail_safe cfg (protocol_mgr s))"
    by blast
  have pm: "protocol_mgr s' = fail_safe cfg (protocol_mgr s)" using s'(5) nl by simp
  have nm: "get_name (protocol_mgr s') = ''All valves open''"
    and pg: "program (protocol_mgr s') = [\<lparr>ptl_time = 1000, packed = all_valves_packed cfg\<rparr>]"
    unfolding pm by (simp_all add: fail_safe_def prime_start_def set_name_def get_name_def clear_def)
  have bits: "\<forall>v \<in> set [1..<Suc (N_VALVES cfg)].
              bit (all_valves_packed cfg ! nat (py (valve2p cfg v) - AXIS_MIN cfg))
                  (nat (px (valve2p cfg v) - AXIS_MIN cfg))"
    using every_valve_set[OF assms(1)] by auto
  have lp: "\<not> loading_program s'" using s'(4) s(5) by simp
  show ?thesis
    using s(1) so s(5) s'(1,2,3) lp nm pg bits by blast
qed

subsection \<open>Uploads on the small grid\<close>

lemma grid3_idle_idle: "idle grid3_idle"
  by (simp add: idle_def grid3_idle_def initial_globals_def)

lemma grid3_upload_command: "upload_command upload_tick grid3_idle"
  by (simp add: upload_command_def upload_tick_def grid3_idle_def every_n_millis_def)

lemma grid3_valid_frame: "valid_frame grid3_cfg frame_500_origin 3"
proof -
  have u: "unpack_byte grid3_cfg 0x11 = \<lparr>px = 0, py = 0\<rparr>" by code_simp
  have "in_axis grid3_cfg \<lparr>px = 0, py = 0\<rparr>" by (simp add: in_axis_def grid3_cfg_def)
  then show ?thesis
    by (simp add: valid_frame_def upt_rec frame_500_origin_def u) (simp add: grid3_cfg_def)
qed

lemma grid3_name_count_orderly: "orderly grid3_cfg 10 0 (name_count_ticks c)"
  by (simp add: name_count_ticks_def frame_in_order_def LOADING_TIMEOUT_def)

lemma grid3_orderly: "orderly grid3_cfg 10 0 (name_count_ticks c @ [frame_tick 40])"
  using grid3_valid_frame
  by (simp add: name_count_ticks_def frame_tick_def frame_in_order_def LOADING_TIMEOUT_def)

lemma grid3_texts: "concat (map t_rx (name_count_ticks c @ [frame_tick t])) = [''T'', c]"
  by (simp add: name_count_ticks_def frame_tick_def)

lemma grid3_frames: "frames_in (name_count_ticks c @ [frame_tick t]) = 1"
  by (simp add: name_count_ticks_def frame_tick_def frames_in_def)

lemma grid3_eop: "t_rx (eop_tick t) = [] \<and> is_EOP (t_bsc (eop_tick t))"
  by (simp add: eop_tick_def is_EOP_def)

lemma grid3_constants:
  "P_NULL_VAL < AXIS_MIN grid3_cfg" "PROTOCOL_MAX_LINES grid3_cfg = 5000"
  by (simp_all add: grid3_cfg_def P_NULL_VAL_def)

theorem C7_upload_succeeds_witness:
  "P_NULL_VAL < AXIS_MIN grid3_cfg \<and> idle grid3_idle \<and> upload_command upload_tick grid3_idle \<and>
   atoi ''1'' = int 1 \<and> 1 \<le> PROTOCOL_MAX_LINES grid3_cfg \<and>
   orderly grid3_cfg (t_now upload_tick) 0 (name_count_ticks ''1'' @ [frame_tick 40]) \<and>
   concat (map t_rx (name_count_ticks ''1'' @ [frame_tick 40])) = [''T'', ''1''] \<and>
   frames_in (name_count_ticks ''1'' @ [frame_tick 40]) = 1 \<and>
   t_rx (eop_tick 50) = [] \<and> is_EOP (t_bsc (eop_tick 50)) \<and>
   (\<exists>st'. run grid3_cfg (upload_tick # (name_count_ticks ''1'' @ [frame_tick 40]) @ [eop_tick 50])
            grid3_idle = Inr st' \<and>
          serial_out st' = [EchoName ''T'', EchoCount 1, Success] \<and>
          loading_successful st' \<and> \<not> loading_program st' \<and> fsm_next st' = state_off \<and>
          get_N_lines (protocol_mgr st') = 1 \<and> get_name (protocol_mgr st') = ''T'')"
proof -
  have a: "atoi ''1'' = int 1" by code_simp
  have m: "1 \<le> PROTOCOL_MAX_LINES grid3_cfg" by (simp add: grid3_constants)
  have t0: "t_now upload_tick = 10" by (simp add: upload_tick_def)
  have o: "orderly grid3_cfg (t_now upload_tick) 0 (name_count_ticks ''1'' @ [frame_tick 40])"
    unfolding t0 by (rule grid3_orderly)
  have s0: "serial_out grid3_idle = []" by (simp add: grid3_idle_def initial_globals_def)
  from C7_upload_succeeds[OF grid3_constants(1) grid3_idle_idle grid3_upload_command a m _ o
      grid3_texts grid3_frames conjunct1[OF grid3_eop] conjunct2[OF grid3_eop]]
  have "\<exists>st'. run grid3_cfg (upload_tick # (name_count_ticks ''1'' @ [frame_tick 40]) @ [eop_tick 50])
            grid3_idle = Inr st' \<and>
          serial_out st' = [EchoName ''T'', EchoCount 1, Success] \<and>
          loading_successful st' \<and> \<not> loading_program st' \<and> fsm_next st' = state_off \<and>
          get_N_lines (protocol_mgr st') = 1 \<and> get_name (protocol_mgr st') = ''T''"
    by (simp add: s0)
  then show ?thesis
    using grid3_constants(1) grid3_idle_idle grid3_upload_command a m o grid3_texts grid3_frames
      grid3_eop
    by blast
qed

theorem C3_count_mismatch_failsafe_witness:
  "config_ok grid3_cfg \<and> idle grid3_idle \<and> upload_command upload_tick grid3_idle \<and>
   atoi ''2'' = int 2 \<and> 2 \<le> PROTOCOL_MAX_LINES grid3_cfg \<and>
   orderly grid3_cfg (t_now upload_tick) 0 (name_count_ticks ''2'' @ [frame_tick 40]) \<and>
   concat (map t_rx (name_count_ticks ''2'' @ [frame_tick 40])) = [''T'', ''2''] \<and>
   frames_in (name_count_ticks ''2'' @ [frame_tick 40]) = 2 - 1 \<and>
   t_rx (eop_tick 50) = [] \<and> is_EOP (t_bsc (eop_tick 50)) \<and> t_rx (quiet_tick 60) = [] \<and>
   (\<exists>st1 st'. run grid3_cfg (upload_tick # (name_count_ticks ''2'' @ [frame_tick 40]) @ [eop_tick 50])
            grid3_idle = Inr st1 \<and>
          serial_out st1 = [EchoName ''T'', EchoCount 2, ErrCountMismatch 2 1] \<and>
          loop grid3_cfg (quiet_tick 60) st1 = Inr st' \<and>
          fsm_current st' = state_off \<and>
          get_name (protocol_mgr st') = ''All valves open'' \<and>
          program (protocol_mgr st') = [\<lparr>ptl_time = 1000, packed = all_valves_packed grid3_cfg\<rparr>])"
proof -
  have a: "atoi ''2'' = int 2" by code_simp
  have m: "2 \<le> PROTOCOL_MAX_LINES grid3_cfg" by (simp add: grid3_constants)
  have t0: "t_now upload_tick = 10" by (simp add: upload_tick_def)
  have o: "orderly grid3_cfg (t_now upload_tick) 0 (name_count_ticks ''2'' @ [frame_tick 40])"
    unfolding t0 by (rule grid3_orderly)
  have f: "frames_in (name_count_ticks ''2'' @ [frame_tick 40]) = 2 - 1"
    by (simp add: grid3_frames)
  have q: "t_rx (quiet_tick 60) = []" by (simp add: quiet_tick_def)
  have s0: "serial_out grid3_idle = []" by (simp add: grid3_idle_def initial_globals_def)
  from C3_count_mismatch_failsafe[OF config_ok_grid3 grid3_idle_idle grid3_upload_command a _ m _ o
      grid3_texts f conjunct1[OF grid3_eop] conjunct2[OF grid3_eop] q]
  have "\<exists>st1 st'. run grid3_cfg (upload_tick # (name_count_ticks ''2'' @ [frame_tick 40]) @ [eop_tick 50])
            grid3_idle = Inr st1 \<and>
          serial_out st1 = [EchoName ''T'', EchoCount 2, ErrCountMismatch 2 1] \<and>
          loop grid3_cfg (quiet_tick 60) st1 = Inr st' \<and>
          fsm_current st' = state_off \<and>
          get_name (protocol_mgr st') = ''All valves open'' \<and>
          program (protocol_mgr st') = [\<lparr>ptl_time = 1000, packed = all_valves_packed grid3_cfg\<rparr>]"
    by (simp add: s0) blast
  then show ?thesis
    using config_ok_grid3 grid3_idle_idle grid3_upload_command a m o grid3_texts f grid3_eop q
    by blast
qed

text \<open>
  An upload on the small grid, from power-on, whose only frame arrives 4001 ms
  after the command: the frame is stored, the same update reports the time-out
  and ends the upload, and the next pass, which brings the end-of-program frame,
  runs the exit function and installs the fail-safe program.
\<close>

lemma grid3_late_run:
  assumes "atoi c = int N" and "N \<le> 5000"
  shows "\<exists>st'. run grid3_cfg (late_ticks c) (initial_globals new_ProtocolManager) = Inr st' \<and>
      serial_out st' = [EchoName ''T'', EchoCount (word_of_nat N), ErrTimeout] \<and>
      fsm_current st' = state_off \<and>
      get_name (protocol_mgr st') = ''All valves open'' \<and>
      get_N_lines (protocol_mgr st') = 1"
proof -
  have cap: "\<not> over_capacity grid3_cfg c"
    using assms by (intro promise_fits[of c N]) (simp_all add: grid3_constants)
  from command_pass[OF grid3_idle_idle grid3_upload_command, of grid3_cfg]
  obtain s0 where s0: "loop grid3_cfg upload_tick grid3_idle = Inr s0" "uploading s0"
      "loading_stage s0 = 0" "sc_pending s0 = []" "fsm_change_time s0 = t_now upload_tick"
      "program (protocol_mgr s0) = []" "serial_out s0 = serial_out grid3_idle"
    by blast
  have c0: "fsm_change_time s0 = 10" using s0(5) by (simp add: upload_tick_def)
  have so0: "serial_out s0 = []" using s0(7) by (simp add: grid3_idle_def initial_globals_def)
  have n0: "get_N_lines (protocol_mgr s0) = 0" using s0(6) by (simp add: get_N_lines_def)
  have tx: "concat (map t_rx (name_count_ticks c)) = drop 0 [''T'', c]"
    by (simp add: name_count_ticks_def)
  have rm: "get_N_lines (protocol_mgr s0) + frames_in (name_count_ticks c) \<le> PROTOCOL_MAX_LINES grid3_cfg"
    using n0 by (simp add: name_count_ticks_def frames_in_def)
  from run_orderly[OF grid3_constants(1) cap s0(2,3) _ s0(4) c0 grid3_name_count_orderly tx rm]
  obtain s where s: "run grid3_cfg (name_count_ticks c) s0 = Inr s" "uploading s"
      "loading_stage s = 2" "sc_pending s = []" "fsm_change_time s = 10"
      "get_N_lines (protocol_mgr s) = get_N_lines (protocol_mgr s0) + frames_in (name_count_ticks c)"
      "serial_out s = serial_out s0 @ drop 0 [EchoName ''T'', EchoCount (word_of_int (atoi c))]"
    by auto
  have ns: "get_N_lines (protocol_mgr s) = 0"
    using s(6) n0 by (simp add: name_count_ticks_def frames_in_def)
  have room: "get_N_lines (protocol_mgr s) < PROTOCOL_MAX_LINES grid3_cfg"
    using ns by (simp add: grid3_constants)
  have late: "LOADING_TIMEOUT < unat (t_now (frame_tick 4011) - fsm_change_time s)"
    unfolding s(5) by (simp add: frame_tick_def LOADING_TIMEOUT_def)
  from late_frame_pass[OF s(2,3,4) _ _ grid3_valid_frame grid3_constants(1) room late]
  obtain s1 where s1: "loop grid3_cfg (frame_tick 4011) s = Inr s1"
      "fsm_current s1 = state_uploading" "fsm_next s1 = state_off" "\<not> fsm_need_enter s1"
      "\<not> loading_successful s1" "sc_pending s1 = []"
      "serial_out s1 = serial_out s @ [ErrTimeout]"
    by (auto simp: frame_tick_def)
  from exit_pass[OF config_ok_grid3 s1(2,3,4,6), of "eop_tick 4020"]
  obtain s2 where s2: "loop grid3_cfg (eop_tick 4020) s1 = Inr s2" "fsm_current s2 = state_off"
      "serial_out s2 = serial_out s1"
      "protocol_mgr s2 =
        (if loading_successful s1 then prime_start (protocol_mgr s1)
         else fail_safe grid3_cfg (protocol_mgr s1))"
    by (auto simp: eop_tick_def)
  have r: "run grid3_cfg (late_ticks c) (initial_globals new_ProtocolManager) = Inr s2"
    unfolding late_ticks_def quiet_tick_def
    using grid3_boot_pass s0(1) s(1) s1(1) s2(1) by (simp add: run_append)
  have so: "serial_out s2 = [EchoName ''T'', EchoCount (word_of_nat N), ErrTimeout]"
    using s2(3) s1(7) s(7) so0 assms(1) by simp
  have pm: "protocol_mgr s2 = fail_safe grid3_cfg (protocol_mgr s1)" using s2(4) s1(5) by simp
  have "get_name (protocol_mgr s2) = ''All valves open''" "get_N_lines (protocol_mgr s2) = 1"
    unfolding pm
    by (simp_all add: fail_safe_def prime_start_def set_name_def get_name_def clear_def
        get_N_lines_def)
  then show ?thesis using r so s2(2) by blast
qed

text \<open>
  C7 as stated fails: the host promises one line and delivers one valid frame
  followed by the end-of-program frame, but the frame arrives after the
  deadline; the upload reports the time-out, not success.
\<close>

theorem C7_late_frame_counterexample:
  "atoi ''1'' = 1 \<and> valid_frame grid3_cfg frame_500_origin 3 \<and>
   (\<exists>st'. run grid3_cfg (late_ticks ''1'') (initial_globals new_ProtocolManager) = Inr st' \<and>
          serial_out st' = [EchoName ''T'', EchoCount 1, ErrTimeout] \<and>
          fsm_current st' = state_off \<and>
          get_name (protocol_mgr st') = ''All valves open'')"
proof -
  have a: "atoi ''1'' = int 1" by code_simp
  from grid3_late_run[OF a] a grid3_valid_frame show ?thesis by auto
qed

text \<open>
  C3 as stated fails: the host promises two lines and delivers one valid frame
  before the end-of-program frame, but the frame arrives after the deadline;
  the upload reports the time-out, not the count mismatch.
\<close>

theorem C3_late_frame_counterexample:
  "atoi ''2'' = 2 \<and> valid_frame grid3_cfg frame_500_origin 3 \<and>
   (\<exists>st'. run grid3_cfg (late_ticks ''2'') (initial_globals new_ProtocolManager) = Inr st' \<and>
          serial_out st' = [EchoName ''T'', EchoCount 2, ErrTimeout] \<and>
          fsm_current st' = state_off)"
proof -
  have a: "atoi ''2'' = int 2" by code_simp
  from grid3_late_run[OF a] a grid3_valid_frame show ?thesis by auto
qed

text \<open>
  The end of an upload and its exit, pass by pass: a pass that ends the upload
  requests the transition to Off and does not call \<open>prime_start\<close>; when the next
  pass brings no command, the exit function runs on it and calls \<open>prime_start\<close>
  exactly once.
\<close>

lemma upload_end_requests_off:
  assumes "uploading st" and "loop cfg inp st = Inr st1" and "\<not> loading_program st1"
  shows "fsm_current st1 = state_uploading \<and> fsm_next st1 = state_off \<and>
         \<not> fsm_need_enter st1 \<and>
         prime_start_calls (protocol_mgr st1) = prime_start_calls (protocol_mgr st)"
proof -
  let ?st = "st\<lparr>sc_pending := sc_pending st @ t_rx inp\<rparr>"
  from assms(2) loop_uploading[OF assms(1), of cfg inp]
  obtain s where s: "FSM_fun_uploading__upd cfg (t_now inp) (t_bsc inp) ?st = Inr s"
      "st1 = safety_pulses cfg (t_now inp) (safety_check s)"
    by (auto split: sum.splits)
  have lp: "loading_program ?st" using assms(1) by (simp add: uploading_def)
  have nl: "\<not> loading_program s" using assms(3) s(2) by simp
  from upd_keeps_fsm_current[OF s(1)] upd_ends_in_off[OF s(1) lp nl] assms(1)
  show ?thesis unfolding s(2) by (simp add: uploading_def)
qed

lemma exit_primes_once:
  assumes "config_ok cfg" and "fsm_current st = state_uploading" and "fsm_next st = state_off"
    and "\<not> fsm_need_enter st" and "sc_pending st = []" and "t_rx inp = []"
  shows "\<exists>s. loop cfg inp st = Inr s \<and> fsm_current s = state_off \<and>
      prime_start_calls (protocol_mgr s) = Suc (prime_start_calls (protocol_mgr st)) \<and>
      pm_pos (protocol_mgr s) = None \<and>
      (\<forall>t. update cfg t s = activate cfg t 0 s)"
proof -
  from exit_pass[OF assms]
  obtain s where s: "loop cfg inp st = Inr s" "fsm_current s = state_off"
      "protocol_mgr s =
        (if loading_successful st then prime_start (protocol_mgr st)
         else fail_safe cfg (protocol_mgr st))"
    by blast
  have c: "prime_start_calls (protocol_mgr s) = Suc (prime_start_calls (protocol_mgr st))"
    and p: "pm_pos (protocol_mgr s) = None"
    unfolding s(3) by (simp_all add: fail_safe_def prime_start_def set_name_def clear_def)
  have "\<forall>t. update cfg t s = activate cfg t 0 s" using p by (simp add: update_def)
  then show ?thesis using s(1,2) c p by blast
qed

end
